theory Spec2Isabelle
  imports Main
begin

section \<open>JSON values as Python sees them\<close>

text \<open>
  The values that flow through \<^verbatim>\<open>DeviceInfoReader\<close> are what \<^verbatim>\<open>json.load\<close> produces and what
  the source descriptors hold: \<^verbatim>\<open>None\<close>, booleans, integers, strings, lists and dictionaries with
  string keys. A dictionary is an association list in insertion order, as a Python \<^verbatim>\<open>dict\<close>
  is ordered. Floating-point numbers are left out of the value universe.
\<close>

datatype json =
    JNull
  | JBool bool
  | JInt int
  | JStr string
  | JList "json list"
  | JDict "(string \<times> json) list"

type_synonym jdict = "(string \<times> json) list"

text \<open>Exceptions deriving from \<^verbatim>\<open>Exception\<close>; \<open>Failure\<close> is whatever a collaborator raises.\<close>

datatype error =
    KeyError string
  | TypeError string
  | Failure string

text \<open>\<^verbatim>\<open>bool(v)\<close>: the truth value that \<^verbatim>\<open>if v:\<close> and \<^verbatim>\<open>not v\<close> test.\<close>

fun truthy :: "json \<Rightarrow> bool" where
  "truthy JNull = False"
| "truthy (JBool b) = b"
| "truthy (JInt n) = (n \<noteq> 0)"
| "truthy (JStr s) = (s \<noteq> [])"
| "truthy (JList xs) = (xs \<noteq> [])"
| "truthy (JDict kvs) = (kvs \<noteq> [])"

text \<open>Lists and dictionaries cannot be dictionary keys: using one raises \<^verbatim>\<open>TypeError\<close>.\<close>

fun hashable :: "json \<Rightarrow> bool" where
  "hashable (JList xs) = False"
| "hashable (JDict kvs) = False"
| "hashable v = True"

text \<open>\<^verbatim>\<open>isinstance(v, list)\<close>.\<close>

fun is_list :: "json \<Rightarrow> bool" where
  "is_list (JList xs) = True"
| "is_list v = False"

text \<open>
  \<^verbatim>\<open>a == b\<close>. A boolean is the integer 0 or 1; a string never equals a number; lists are
  compared element by element; dictionaries are equal when they have the same number of keys and
  every key of the first has an equal value in the second.
\<close>

fun py_eq :: "json \<Rightarrow> json \<Rightarrow> bool"
  and py_eq_list :: "json list \<Rightarrow> json list \<Rightarrow> bool"
  and py_eq_items :: "(string \<times> json) list \<Rightarrow> (string \<times> json) list \<Rightarrow> bool"
where
  "py_eq JNull JNull = True"
| "py_eq (JBool a) (JBool b) = (a = b)"
| "py_eq (JBool a) (JInt n) = ((if a then 1 else 0) = n)"
| "py_eq (JInt m) (JBool b) = (m = (if b then 1 else 0))"
| "py_eq (JInt m) (JInt n) = (m = n)"
| "py_eq (JStr s) (JStr t) = (s = t)"
| "py_eq (JList xs) (JList ys) = py_eq_list xs ys"
| "py_eq (JDict a) (JDict b) = (length a = length b \<and> py_eq_items a b)"
| "py_eq u v = False"
| "py_eq_list [] [] = True"
| "py_eq_list (x # xs) (y # ys) = (py_eq x y \<and> py_eq_list xs ys)"
| "py_eq_list xs ys = False"
| "py_eq_items [] b = True"
| "py_eq_items ((k, v) # a) b =
     ((case map_of b k of None \<Rightarrow> False | Some w \<Rightarrow> py_eq v w) \<and> py_eq_items a b)"

text \<open>\<^verbatim>\<open>str(n)\<close> for an integer: its decimal digits.\<close>

function nat_str :: "nat \<Rightarrow> string" where
  "nat_str n = (if n < 10 then [''0123456789'' ! n]
                else nat_str (n div 10) @ [''0123456789'' ! (n mod 10)])"
  by pat_completeness auto
termination
  by (relation "measure (\<lambda>n. n)") auto

definition int_str :: "int \<Rightarrow> string" where
  "int_str i = (if i < 0 then CHR ''-'' # nat_str (nat (- i)) else nat_str (nat i))"

text \<open>
  \<^verbatim>\<open>str(v)\<close> as the f-string \<^verbatim>\<open>f"{source_name}_{k}"\<close> formats a cache key. Cache keys are
  hashable, so the two last equations are never reached from the cache.
\<close>

fun py_str :: "json \<Rightarrow> string" where
  "py_str (JStr s) = s"
| "py_str (JBool b) = (if b then ''True'' else ''False'')"
| "py_str (JInt i) = int_str i"
| "py_str JNull = ''None''"
| "py_str (JList xs) = []"
| "py_str (JDict kvs) = []"

subsection \<open>Dictionary operations\<close>

text \<open>\<^verbatim>\<open>d.get(k)\<close> with a string key: \<^verbatim>\<open>None\<close> when the key is absent.\<close>

definition dict_get :: "jdict \<Rightarrow> string \<Rightarrow> json" where
  "dict_get d k = (case map_of d k of None \<Rightarrow> JNull | Some v \<Rightarrow> v)"

text \<open>
  \<^verbatim>\<open>d.get(k)\<close> with a key computed at run time. The keys of \<open>d\<close> are strings, so a hashable key
  that is not a string is absent, and an unhashable one raises.
\<close>

definition dict_get_dyn :: "jdict \<Rightarrow> json \<Rightarrow> error + json" where
  "dict_get_dyn d k =
     (case k of
        JStr s \<Rightarrow> Inr (dict_get d s)
      | JList xs \<Rightarrow> Inl (TypeError ''unhashable type: list'')
      | JDict kvs \<Rightarrow> Inl (TypeError ''unhashable type: dict'')
      | _ \<Rightarrow> Inr JNull)"

text \<open>\<^verbatim>\<open>d[k]\<close>: raises \<^verbatim>\<open>KeyError\<close> when the key is absent.\<close>

definition dict_getitem :: "jdict \<Rightarrow> string \<Rightarrow> error + json" where
  "dict_getitem d k = (case map_of d k of None \<Rightarrow> Inl (KeyError k) | Some v \<Rightarrow> Inr v)"

text \<open>\<^verbatim>\<open>d[k] = v\<close>: an existing key keeps its position, a new key goes to the end.\<close>

fun dict_setitem :: "jdict \<Rightarrow> string \<Rightarrow> json \<Rightarrow> jdict" where
  "dict_setitem [] k v = [(k, v)]"
| "dict_setitem ((k', v') # d) k v =
     (if k' = k then (k, v) # d else (k', v') # dict_setitem d k v)"

text \<open>\<^verbatim>\<open>d.update(other)\<close>: sets every item of \<open>other\<close>, in its order.\<close>

fun dict_update :: "jdict \<Rightarrow> jdict \<Rightarrow> jdict" where
  "dict_update d [] = d"
| "dict_update d ((k, v) # other) = dict_update (dict_setitem d k v) other"

section \<open>The source cache\<close>

text \<open>
  A cached source entry is the dictionary \<^verbatim>\<open>{"data": extracted_data, "config": source}\<close>.
  \<^verbatim>\<open>self.sources_cache\<close> maps source names to entries and is iterated in insertion order. Its
  keys are compared as Python compares dictionary keys, with \<^verbatim>\<open>==\<close>.
\<close>

record cached_source =
  data :: json
  config :: jdict

type_synonym cache = "(json \<times> cached_source) list"

text \<open>\<^verbatim>\<open>self.sources_cache[k] = v\<close> for a hashable \<open>k\<close>; an existing key keeps its place.\<close>

fun cache_setitem :: "cache \<Rightarrow> json \<Rightarrow> cached_source \<Rightarrow> cache" where
  "cache_setitem [] k v = [(k, v)]"
| "cache_setitem ((k', v') # c) k v =
     (if py_eq k' k then (k', v) # c else (k', v') # cache_setitem c k v)"

text \<open>The entry under \<open>k\<close>, if \<^verbatim>\<open>k in self.sources_cache\<close>.\<close>

fun cache_find :: "cache \<Rightarrow> json \<Rightarrow> cached_source option" where
  "cache_find [] k = None"
| "cache_find ((k', v') # c) k = (if py_eq k' k then Some v' else cache_find c k)"

section \<open>Collaborators\<close>

text \<open>
  The GitHub client, the file system, the JSON parser and \<^verbatim>\<open>extract_data\<close> are outside the
  class. Each is a function that returns its result or the exception it raises.
  \<^item> \<open>get_repo token repo\<close> is \<^verbatim>\<open>Github(token).get_repo(repo)\<close>, or \<^verbatim>\<open>Github().get_repo(repo)\<close>
    without a token;
  \<^item> \<open>get_contents r file\<close> is \<^verbatim>\<open>r.get_contents(file).decoded_content.decode()\<close>;
  \<^item> \<open>read_file path\<close> is the text of \<^verbatim>\<open>open(Path(path))\<close>;
  \<^item> \<open>json_loads\<close> is \<^verbatim>\<open>json.loads\<close>;
  \<^item> \<open>extract_data raw structure\<close> is \<^verbatim>\<open>extract_data(raw, structure)\<close>.
\<close>

record 'r env =
  get_repo :: "string option \<Rightarrow> json \<Rightarrow> error + 'r"
  get_contents :: "'r \<Rightarrow> json \<Rightarrow> error + string"
  read_file :: "string \<Rightarrow> error + string"
  json_loads :: "string \<Rightarrow> error + json"
  extract_data :: "json \<Rightarrow> json \<Rightarrow> error + json"

text \<open>
  The catalog reader \<^verbatim>\<open>JSONReader\<close>: \<^verbatim>\<open>get_device_info(id_field, id_value)\<close> returns a record
  or \<^verbatim>\<open>None\<close>, \<^verbatim>\<open>get_all_devices()\<close> a list of records; either may raise.
\<close>

record json_reader =
  reader_get_device_info :: "string \<Rightarrow> string \<Rightarrow> error + jdict option"
  reader_get_all_devices :: "error + jdict list"

section \<open>Loading the sources\<close>

text \<open>What \<^verbatim>\<open>_load_all_sources\<close> prints, one constructor for each \<^verbatim>\<open>print\<close> of the method:
  \<^item> \<open>MissingName\<close>: \<^verbatim>\<open>"Warning: Source missing 'name' field, skipping"\<close>;
  \<^item> \<open>UnknownType ty name\<close>: \<^verbatim>\<open>f"Warning: Unknown source type '{source['type']}' for {source_name}"\<close>;
  \<^item> \<open>Loaded n name\<close>: \<^verbatim>\<open>f"Loaded {len(extracted_data)} items from source '{source_name}'"\<close>;
  \<^item> \<open>LoadError name e\<close>: \<^verbatim>\<open>f"Error loading source '{source_name}': {e}"\<close>.
\<close>

datatype log_line =
    MissingName
  | UnknownType json json
  | Loaded nat json
  | LoadError json error

text \<open>The object \<^verbatim>\<open>self\<close>: the fields the methods read and write, and the lines printed.\<close>

record reader =
  device_info_sources :: "jdict list"
  gh_token :: "string option"
  sources_cache :: cache
  printed :: "log_line list"

text \<open>\<^verbatim>\<open>_load_github_source\<close>.\<close>

definition load_github_source :: "'r env \<Rightarrow> string option \<Rightarrow> jdict \<Rightarrow> error + json" where
  "load_github_source env token source =
     (case dict_getitem source ''repo'' of
        Inl e \<Rightarrow> Inl e
      | Inr repo \<Rightarrow>
          (case get_repo env (if token = Some [] then None else token) repo of
             Inl e \<Rightarrow> Inl e
           | Inr r \<Rightarrow>
               (case dict_getitem source ''file'' of
                  Inl e \<Rightarrow> Inl e
                | Inr file \<Rightarrow>
                    (case get_contents env r file of
                       Inl e \<Rightarrow> Inl e
                     | Inr content \<Rightarrow> json_loads env content))))"

text \<open>\<^verbatim>\<open>_load_local_source\<close>; \<^verbatim>\<open>Path(x)\<close> raises \<^verbatim>\<open>TypeError\<close> unless \<open>x\<close> is a string.\<close>

definition load_local_source :: "'r env \<Rightarrow> jdict \<Rightarrow> error + json" where
  "load_local_source env source =
     (case dict_getitem source ''file'' of
        Inl e \<Rightarrow> Inl e
      | Inr file \<Rightarrow>
          (case file of
             JStr path \<Rightarrow>
               (case read_file env path of
                  Inl e \<Rightarrow> Inl e
                | Inr content \<Rightarrow> json_loads env content)
           | _ \<Rightarrow> Inl (TypeError ''expected str, bytes or os.PathLike object'')))"

text \<open>The loop \<^verbatim>\<open>for item in data: extracted_data.append(extract_data(item, structure[0]))\<close>.\<close>

fun extract_each :: "'r env \<Rightarrow> json list \<Rightarrow> json \<Rightarrow> error + json list" where
  "extract_each env [] schema = Inr []"
| "extract_each env (item # items) schema =
     (case extract_data env item schema of
        Inl e \<Rightarrow> Inl e
      | Inr extracted_item \<Rightarrow>
          (case extract_each env items schema of
             Inl e \<Rightarrow> Inl e
           | Inr rest \<Rightarrow> Inr (extracted_item # rest)))"

text \<open>
  The projection: item by item when \<open>data\<close> is a list and \<open>structure\<close> a non-empty list, as a
  whole otherwise.
\<close>

fun project :: "'r env \<Rightarrow> json \<Rightarrow> json \<Rightarrow> error + json" where
  "project env (JList items) (JList (schema # schemas)) =
     (case extract_each env items schema of
        Inl e \<Rightarrow> Inl e
      | Inr extracted \<Rightarrow> Inr (JList extracted))"
| "project env raw structure = extract_data env raw structure"

text \<open>
  \<^verbatim>\<open>if not isinstance(extracted_data, list): extracted_data = [extracted_data] if extracted_data else []\<close>
\<close>

fun normalize_extracted :: "json \<Rightarrow> json" where
  "normalize_extracted (JList xs) = JList xs"
| "normalize_extracted v = (if truthy v then JList [v] else JList [])"

text \<open>\<^verbatim>\<open>len(v)\<close> where the method calls it, on the normalized list.\<close>

fun py_len :: "json \<Rightarrow> nat" where
  "py_len (JList xs) = length xs"
| "py_len (JDict kvs) = length kvs"
| "py_len (JStr s) = length s"
| "py_len v = 0"

text \<open>
  Lines 85 to 106: project the fetched payload, normalize, store the entry under the name and
  report the count. Storing under an unhashable name raises \<^verbatim>\<open>TypeError\<close>.
\<close>

definition cache_source ::
  "'r env \<Rightarrow> jdict \<Rightarrow> json \<Rightarrow> json \<Rightarrow> cache \<Rightarrow> error + cache \<times> log_line" where
  "cache_source env source source_name raw c =
     (case dict_getitem source ''structure'' of
        Inl e \<Rightarrow> Inl e
      | Inr structure \<Rightarrow>
          (case project env raw structure of
             Inl e \<Rightarrow> Inl e
           | Inr extracted \<Rightarrow>
               (let extracted_data = normalize_extracted extracted in
                if hashable source_name
                then Inr (cache_setitem c source_name
                            \<lparr>data = extracted_data, config = source\<rparr>,
                          Loaded (py_len extracted_data) source_name)
                else Inl (TypeError ''unhashable type''))))"

text \<open>
  The body of the \<^verbatim>\<open>try\<close>, lines 75 to 106: it returns the new cache and the line to print,
  or the exception raised. The \<^verbatim>\<open>continue\<close> of an unknown type leaves the cache as it is.
\<close>

definition try_load :: "'r env \<Rightarrow> string option \<Rightarrow> jdict \<Rightarrow> json \<Rightarrow> cache \<Rightarrow> error + cache \<times> log_line" where
  "try_load env token source source_name c =
     (case dict_getitem source ''type'' of
        Inl e \<Rightarrow> Inl e
      | Inr ty \<Rightarrow>
          if py_eq ty (JStr ''github'') then
            (case load_github_source env token source of
               Inl e \<Rightarrow> Inl e
             | Inr raw \<Rightarrow> cache_source env source source_name raw c)
          else if py_eq ty (JStr ''local'') then
            (case load_local_source env source of
               Inl e \<Rightarrow> Inl e
             | Inr raw \<Rightarrow> cache_source env source source_name raw c)
          else Inr (c, UnknownType ty source_name))"

text \<open>One iteration of the loop of \<^verbatim>\<open>_load_all_sources\<close>, lines 69 to 109.\<close>

definition load_source :: "'r env \<Rightarrow> jdict \<Rightarrow> reader \<Rightarrow> reader" where
  "load_source env source self =
     (let source_name = dict_get source ''name'' in
      if \<not> truthy source_name
      then self\<lparr>printed := printed self @ [MissingName]\<rparr>
      else
        (case try_load env (gh_token self) source source_name (sources_cache self) of
           Inr (c, line) \<Rightarrow> self\<lparr>sources_cache := c, printed := printed self @ [line]\<rparr>
         | Inl e \<Rightarrow> self\<lparr>printed := printed self @ [LoadError source_name e]\<rparr>))"

text \<open>The loop over the descriptors still to load.\<close>

fun load_sources :: "'r env \<Rightarrow> jdict list \<Rightarrow> reader \<Rightarrow> reader" where
  "load_sources env [] self = self"
| "load_sources env (source # sources) self = load_sources env sources (load_source env source self)"

text \<open>\<^verbatim>\<open>_load_all_sources\<close>: the loop over \<^verbatim>\<open>self.device_info_sources\<close>.\<close>

definition load_all_sources :: "'r env \<Rightarrow> reader \<Rightarrow> reader" where
  "load_all_sources env self = load_sources env (device_info_sources self) self"

text \<open>
  \<^verbatim>\<open>__init__\<close>: \<^verbatim>\<open>device_info_sources or []\<close>, an empty cache, and the load when the list is not
  empty.
\<close>

definition init :: "'r env \<Rightarrow> jdict list option \<Rightarrow> string option \<Rightarrow> reader" where
  "init env sources token =
     (let self = \<lparr>device_info_sources = (case sources of None \<Rightarrow> [] | Some l \<Rightarrow> l),
                  gh_token = token, sources_cache = [], printed = []\<rparr>
      in if device_info_sources self \<noteq> [] then load_all_sources env self else self)"

section \<open>Lookup in a cached source\<close>

text \<open>
  The loop of \<^verbatim>\<open>_lookup_in_source\<close> over a cached list: the first item that is a dictionary and
  whose \<^verbatim>\<open>item.get(lookup_field) == lookup_value\<close>, or \<^verbatim>\<open>None\<close> after the last item.
\<close>

fun scan_items :: "json list \<Rightarrow> json \<Rightarrow> json \<Rightarrow> error + jdict option" where
  "scan_items [] lookup_field lookup_value = Inr None"
| "scan_items (item # items) lookup_field lookup_value =
     (case item of
        JDict d \<Rightarrow>
          (case dict_get_dyn d lookup_field of
             Inl e \<Rightarrow> Inl e
           | Inr x \<Rightarrow>
               if py_eq x lookup_value then Inr (Some d)
               else scan_items items lookup_field lookup_value)
      | _ \<Rightarrow> scan_items items lookup_field lookup_value)"

text \<open>\<^verbatim>\<open>_lookup_in_source\<close>; testing membership of an unhashable name raises \<^verbatim>\<open>TypeError\<close>.\<close>

definition lookup_in_source :: "cache \<Rightarrow> json \<Rightarrow> json \<Rightarrow> json \<Rightarrow> error + jdict option" where
  "lookup_in_source c source_name lookup_field lookup_value =
     (if \<not> hashable source_name then Inl (TypeError ''unhashable type'')
      else
        (case cache_find c source_name of
           None \<Rightarrow> Inr None
         | Some cached \<Rightarrow>
             (case data cached of
                JList items \<Rightarrow> scan_items items lookup_field lookup_value
              | JDict d \<Rightarrow>
                  (case dict_get_dyn d lookup_field of
                     Inl e \<Rightarrow> Inl e
                   | Inr x \<Rightarrow> if py_eq x lookup_value then Inr (Some d) else Inr None)
              | _ \<Rightarrow> Inr None)))"

section \<open>Merging the sources into a device\<close>

text \<open>The key \<^verbatim>\<open>f"{source_name}_{k}"\<close>.\<close>

definition prefixed_key :: "json \<Rightarrow> string \<Rightarrow> string" where
  "prefixed_key source_name k = py_str source_name @ ''_'' @ k"

text \<open>
  \<^verbatim>\<open>{f"{source_name}_{k}": v for k, v in match.items()}\<close>. The keys of a dictionary are distinct
  and the prefix is the same for all of them, so the new dictionary has the items of \<open>match\<close> in
  their order, each under its new key.
\<close>

definition prefixed :: "json \<Rightarrow> jdict \<Rightarrow> jdict" where
  "prefixed source_name match = map (\<lambda>(k, v). (prefixed_key source_name k, v)) match"

text \<open>
  The body of the loop of \<^verbatim>\<open>_merge_sources_into_device\<close>, lines 186 to 201, for one entry of
  the cache. \<open>lookup\<close> stands for the bound method \<^verbatim>\<open>self._lookup_in_source\<close>. When
  \<^verbatim>\<open>config.get("match_from")\<close> is true, \<^verbatim>\<open>config["match_from"]\<close> is that same value.
\<close>

definition merge_source ::
  "(json \<Rightarrow> json \<Rightarrow> json \<Rightarrow> error + jdict option) \<Rightarrow> jdict \<Rightarrow> jdict \<Rightarrow> json \<times> cached_source
     \<Rightarrow> error + jdict" where
  "merge_source lookup ota_data current_data entry =
     (let source_name = fst entry;
          cfg = config (snd entry);
          lookup_field = dict_get cfg ''lookup_field''
      in
        if \<not> truthy lookup_field then Inr current_data
        else
          (case (if truthy (dict_get cfg ''match_from'')
                 then dict_get_dyn current_data (dict_get cfg ''match_from'')
                 else dict_get_dyn ota_data lookup_field) of
             Inl e \<Rightarrow> Inl e
           | Inr lookup_value \<Rightarrow>
               if truthy lookup_value then
                 (case lookup source_name lookup_field lookup_value of
                    Inl e \<Rightarrow> Inl e
                  | Inr None \<Rightarrow> Inr current_data
                  | Inr (Some match) \<Rightarrow>
                      if match \<noteq> []
                      then Inr (dict_update current_data (prefixed source_name match))
                      else Inr current_data)
               else Inr current_data))"

text \<open>The loop over the entries of the cache still to visit.\<close>

fun merge_sources ::
  "(json \<Rightarrow> json \<Rightarrow> json \<Rightarrow> error + jdict option) \<Rightarrow> jdict \<Rightarrow> jdict \<Rightarrow> cache \<Rightarrow> error + jdict" where
  "merge_sources lookup ota_data current_data [] = Inr current_data"
| "merge_sources lookup ota_data current_data (entry # entries) =
     (case merge_source lookup ota_data current_data entry of
        Inl e \<Rightarrow> Inl e
      | Inr current_data' \<Rightarrow> merge_sources lookup ota_data current_data' entries)"

text \<open>\<^verbatim>\<open>_merge_sources_into_device\<close>, on the contents of the records.\<close>

definition merge_sources_into_device :: "reader \<Rightarrow> jdict \<Rightarrow> error + jdict" where
  "merge_sources_into_device self ota_data =
     merge_sources (lookup_in_source (sources_cache self)) ota_data ota_data (sources_cache self)"

section \<open>The query methods\<close>

text \<open>\<^verbatim>\<open>get_device_info\<close>, on the contents of the records.\<close>

definition get_device_info ::
  "json_reader \<Rightarrow> reader \<Rightarrow> string \<Rightarrow> string \<Rightarrow> error + jdict option" where
  "get_device_info jr self id_field id_value =
     (case reader_get_device_info jr id_field id_value of
        Inl e \<Rightarrow> Inl e
      | Inr None \<Rightarrow> Inr None
      | Inr (Some ota_data) \<Rightarrow>
          if ota_data = [] then Inr None
          else if device_info_sources self = [] then Inr (Some ota_data)
          else
            (case merge_sources_into_device self ota_data of
               Inl e \<Rightarrow> Inl e
             | Inr merged \<Rightarrow> Inr (Some merged)))"

text \<open>The loop of \<^verbatim>\<open>get_all_devices\<close>.\<close>

fun merge_each :: "reader \<Rightarrow> jdict list \<Rightarrow> error + jdict list" where
  "merge_each self [] = Inr []"
| "merge_each self (ota_device # ota_devices) =
     (case merge_sources_into_device self ota_device of
        Inl e \<Rightarrow> Inl e
      | Inr merged_device \<Rightarrow>
          (case merge_each self ota_devices of
             Inl e \<Rightarrow> Inl e
           | Inr rest \<Rightarrow> Inr (merged_device # rest)))"

text \<open>\<^verbatim>\<open>get_all_devices\<close>.\<close>

definition get_all_devices :: "json_reader \<Rightarrow> reader \<Rightarrow> error + jdict list" where
  "get_all_devices jr self =
     (case reader_get_all_devices jr of
        Inl e \<Rightarrow> Inl e
      | Inr ota_devices \<Rightarrow>
          if device_info_sources self = [] then Inr ota_devices
          else merge_each self ota_devices)"

section \<open>The merge on objects\<close>

text \<open>
  Python passes dictionaries by reference. To tell a copy from its original, the records a query
  touches live in a store: \<open>cells w a\<close> is the dictionary object at address \<open>a\<close>, the addresses
  below \<open>next_free w\<close> are allocated, and \<open>the_reader w\<close> is the object \<^verbatim>\<open>self\<close>, with its
  cache.
\<close>

type_synonym addr = nat

record world =
  cells :: "addr \<Rightarrow> jdict"
  next_free :: addr
  the_reader :: reader

text \<open>\<^verbatim>\<open>d.copy()\<close>: a new object with the items of the object at \<open>a\<close>.\<close>

definition copy_h :: "addr \<Rightarrow> world \<Rightarrow> addr \<times> world" where
  "copy_h a w =
     (next_free w,
      w\<lparr>cells := (cells w)(next_free w := cells w a), next_free := Suc (next_free w)\<rparr>)"

text \<open>\<^verbatim>\<open>d.update(other)\<close> on the object at \<open>a\<close>, in place.\<close>

definition update_h :: "addr \<Rightarrow> jdict \<Rightarrow> world \<Rightarrow> world" where
  "update_h a other w = w\<lparr>cells := (cells w)(a := dict_update (cells w a) other)\<rparr>"

text \<open>
  The body of the loop of \<^verbatim>\<open>_merge_sources_into_device\<close> with \<^verbatim>\<open>ota_data\<close> the object at \<open>ota\<close> and
  \<^verbatim>\<open>current_data\<close> the object at \<open>cur\<close>.
\<close>

definition merge_source_h ::
  "addr \<Rightarrow> addr \<Rightarrow> json \<times> cached_source \<Rightarrow> world \<Rightarrow> (error + unit) \<times> world" where
  "merge_source_h ota cur entry w =
     (let source_name = fst entry;
          cfg = config (snd entry);
          lookup_field = dict_get cfg ''lookup_field''
      in
        if \<not> truthy lookup_field then (Inr (), w)
        else
          (case (if truthy (dict_get cfg ''match_from'')
                 then dict_get_dyn (cells w cur) (dict_get cfg ''match_from'')
                 else dict_get_dyn (cells w ota) lookup_field) of
             Inl e \<Rightarrow> (Inl e, w)
           | Inr lookup_value \<Rightarrow>
               if truthy lookup_value then
                 (case lookup_in_source (sources_cache (the_reader w))
                         source_name lookup_field lookup_value of
                    Inl e \<Rightarrow> (Inl e, w)
                  | Inr None \<Rightarrow> (Inr (), w)
                  | Inr (Some match) \<Rightarrow>
                      if match \<noteq> []
                      then (Inr (), update_h cur (prefixed source_name match) w)
                      else (Inr (), w))
               else (Inr (), w)))"

fun merge_sources_h :: "addr \<Rightarrow> addr \<Rightarrow> cache \<Rightarrow> world \<Rightarrow> (error + unit) \<times> world" where
  "merge_sources_h ota cur [] w = (Inr (), w)"
| "merge_sources_h ota cur (entry # entries) w =
     (case merge_source_h ota cur entry w of
        (Inl e, w') \<Rightarrow> (Inl e, w')
      | (Inr u, w') \<Rightarrow> merge_sources_h ota cur entries w')"

text \<open>\<^verbatim>\<open>_merge_sources_into_device\<close>: returns the address of \<^verbatim>\<open>current_data\<close>.\<close>

definition merge_sources_into_device_h :: "addr \<Rightarrow> world \<Rightarrow> (error + addr) \<times> world" where
  "merge_sources_into_device_h ota w =
     (case copy_h ota w of
        (cur, w1) \<Rightarrow>
          (case merge_sources_h ota cur (sources_cache (the_reader w1)) w1 of
             (Inl e, w2) \<Rightarrow> (Inl e, w2)
           | (Inr u, w2) \<Rightarrow> (Inr cur, w2)))"

text \<open>
  \<^verbatim>\<open>get_device_info\<close>, with a catalog reader \<open>catalog\<close> that returns the address of the record it
  holds for the device, or \<^verbatim>\<open>None\<close>.
\<close>

definition get_device_info_h ::
  "(string \<Rightarrow> string \<Rightarrow> error + addr option) \<Rightarrow> string \<Rightarrow> string \<Rightarrow> world
     \<Rightarrow> (error + addr option) \<times> world" where
  "get_device_info_h catalog id_field id_value w =
     (case catalog id_field id_value of
        Inl e \<Rightarrow> (Inl e, w)
      | Inr None \<Rightarrow> (Inr None, w)
      | Inr (Some ota) \<Rightarrow>
          if cells w ota = [] then (Inr None, w)
          else if device_info_sources (the_reader w) = [] then (Inr (Some ota), w)
          else
            (case merge_sources_into_device_h ota w of
               (Inl e, w') \<Rightarrow> (Inl e, w')
             | (Inr cur, w') \<Rightarrow> (Inr (Some cur), w')))"

text \<open>What a caller reads through the result of \<^verbatim>\<open>get_device_info\<close>.\<close>

definition result_contents :: "(error + addr option) \<times> world \<Rightarrow> error + jdict option" where
  "result_contents rw =
     (case fst rw of
        Inl e \<Rightarrow> Inl e
      | Inr None \<Rightarrow> Inr None
      | Inr (Some a) \<Rightarrow> Inr (Some (cells (snd rw) a)))"

section \<open>Specification-level notions\<close>

text \<open>
  The match value as the specification words it: read \<^verbatim>\<open>match_from\<close> from the accumulating
  record when it is set, \<^verbatim>\<open>lookup_field\<close> from the original record otherwise.
\<close>

definition spec_match_value :: "jdict \<Rightarrow> jdict \<Rightarrow> jdict \<Rightarrow> error + json" where
  "spec_match_value cfg original accumulating =
     (if truthy (dict_get cfg ''match_from'')
      then dict_get_dyn accumulating (dict_get cfg ''match_from'')
      else dict_get_dyn original (dict_get cfg ''lookup_field''))"

text \<open>
  A record matches when it is a dictionary whose lookup field equals the value; a field that
  the record does not have reads as \<^verbatim>\<open>None\<close>.
\<close>

definition spec_matches :: "json \<Rightarrow> json \<Rightarrow> json \<Rightarrow> bool" where
  "spec_matches lookup_field lookup_value item =
     (case item of
        JDict d \<Rightarrow>
          py_eq (case lookup_field of JStr s \<Rightarrow> dict_get d s | _ \<Rightarrow> JNull) lookup_value
      | _ \<Rightarrow> False)"

text \<open>
  A cached source produces no match for a primary record: its lookup field is unset, or its
  match value is falsy, or the lookup finds no record.
\<close>

definition spec_no_match :: "cache \<Rightarrow> jdict \<Rightarrow> json \<times> cached_source \<Rightarrow> bool" where
  "spec_no_match c primary entry =
     (\<not> truthy (dict_get (config (snd entry)) ''lookup_field'') \<or>
      (case spec_match_value (config (snd entry)) primary primary of
         Inl e \<Rightarrow> False
       | Inr v \<Rightarrow>
           \<not> truthy v \<or>
           lookup_in_source c (fst entry) (dict_get (config (snd entry)) ''lookup_field'') v
             = Inr None))"

section \<open>Example data\<close>

text \<open>
  A source \<^verbatim>\<open>specs\<close> with one record, keyed by \<^verbatim>\<open>model\<close>, and a primary record for device
  \<^verbatim>\<open>d1\<close>.
\<close>

definition specs_records :: json where
  "specs_records = JList [JDict [(''model'', JStr ''X1''), (''ram'', JStr ''8GB'')]]"

definition specs_source :: "string \<Rightarrow> jdict" where
  "specs_source ty =
     [(''name'', JStr ''specs''), (''type'', JStr ty), (''repo'', JStr ''org/devices''),
      (''file'', JStr ''specs.json''), (''structure'', JDict []),
      (''lookup_field'', JStr ''model'')]"

definition primary_d1 :: jdict where
  "primary_d1 = [(''id'', JStr ''d1''), (''model'', JStr ''X1'')]"

text \<open>Collaborators that answer every request with the records above, projected as they are.\<close>

definition serving_env :: "unit env" where
  "serving_env =
     \<lparr>get_repo = (\<lambda>token repo. Inr ()),
      get_contents = (\<lambda>r file. Inr ''[]''),
      read_file = (\<lambda>path. Inr ''[]''),
      json_loads = (\<lambda>content. Inr specs_records),
      extract_data = (\<lambda>raw structure. Inr raw)\<rparr>"

text \<open>Collaborators that are unreachable: every request raises.\<close>

definition failing_env :: "unit env" where
  "failing_env =
     \<lparr>get_repo = (\<lambda>token repo. Inl (Failure ''unreachable'')),
      get_contents = (\<lambda>r file. Inl (Failure ''unreachable'')),
      read_file = (\<lambda>path. Inl (Failure ''No such file or directory'')),
      json_loads = (\<lambda>content. Inl (Failure ''Expecting value'')),
      extract_data = (\<lambda>raw structure. Inl (Failure ''schema mismatch''))\<rparr>"

definition fresh_reader :: "jdict list \<Rightarrow> reader" where
  "fresh_reader sources =
     \<lparr>device_info_sources = sources, gh_token = None, sources_cache = [], printed = []\<rparr>"

text \<open>A catalog reader whose record for every device is the empty dictionary.\<close>

definition empty_record_catalog :: json_reader where
  "empty_record_catalog =
     \<lparr>reader_get_device_info = (\<lambda>id_field id_value. Inr (Some [])),
      reader_get_all_devices = Inr [[]]\<rparr>"

text \<open>
  A second source, \<^verbatim>\<open>vendors\<close>, fetched from GitHub and matched on the \<^verbatim>\<open>ram\<close> field that the
  source \<^verbatim>\<open>specs\<close> contributes.
\<close>

definition vendors_source :: jdict where
  "vendors_source =
     [(''name'', JStr ''vendors''), (''type'', JStr ''github''), (''repo'', JStr ''org/devices''),
      (''file'', JStr ''vendors.json''), (''structure'', JDict []),
      (''lookup_field'', JStr ''ram''), (''match_from'', JStr ''specs_ram'')]"

text \<open>Collaborators with GitHub unreachable and the local files readable.\<close>

definition offline_env :: "unit env" where
  "offline_env = serving_env\<lparr>get_repo := (\<lambda>token repo. Inl (Failure ''unreachable''))\<rparr>"

text \<open>
  A cache with the source \<^verbatim>\<open>specs\<close>, holding two records for the model \<^verbatim>\<open>X1\<close>, followed by
  the source \<^verbatim>\<open>vendors\<close>.
\<close>

definition two_source_cache :: cache where
  "two_source_cache =
     [(JStr ''specs'',
       \<lparr>data = JList [JDict [(''model'', JStr ''X1''), (''ram'', JStr ''8GB'')],
                      JDict [(''model'', JStr ''X1''), (''ram'', JStr ''16GB'')]],
        config = specs_source ''local''\<rparr>),
      (JStr ''vendors'',
       \<lparr>data = JList [JDict [(''ram'', JStr ''16GB''), (''vendor'', JStr ''Beta'')],
                      JDict [(''ram'', JStr ''8GB''), (''vendor'', JStr ''Acme'')]],
        config = vendors_source\<rparr>)]"

definition two_source_reader :: reader where
  "two_source_reader =
     \<lparr>device_info_sources = [specs_source ''local'', vendors_source], gh_token = None,
      sources_cache = two_source_cache, printed = []\<rparr>"

text \<open>
  A source \<^verbatim>\<open>S\<close> whose record has both a field \<^verbatim>\<open>x\<close> and a field \<^verbatim>\<open>S_x\<close>.
\<close>

definition colliding_reader :: reader where
  "colliding_reader =
     \<lparr>device_info_sources = [[(''name'', JStr ''S''), (''lookup_field'', JStr ''x'')]],
      gh_token = None,
      sources_cache =
        [(JStr ''S'',
          \<lparr>data = JList [JDict [(''x'', JStr ''v''), (''S_x'', JStr ''w'')]],
           config = [(''name'', JStr ''S''), (''lookup_field'', JStr ''x'')]\<rparr>)],
      printed = []\<rparr>"

text \<open>
  A store with the primary record of \<^verbatim>\<open>d1\<close> at address 0, held by a catalog reader that
  answers every query with that record.
\<close>

definition d1_world :: world where
  "d1_world = \<lparr>cells = (\<lambda>a. [])(0 := primary_d1), next_free = 1, the_reader = two_source_reader\<rparr>"

definition d1_catalog :: "string \<Rightarrow> string \<Rightarrow> error + addr option" where
  "d1_catalog id_field id_value = Inr (Some 0)"

section \<open>Verified properties\<close>

subsection \<open>Basic facts\<close>

lemma py_eq_JStr: "py_eq ty (JStr s) = (ty = JStr s)"
  by (cases ty) auto

subsection \<open>Sources without a name\<close>

text \<open>
  C8. A descriptor whose \<^verbatim>\<open>name\<close> is absent or empty (or any other false value) is skipped:
  whatever the collaborators do, the only effect of its iteration is the warning
  \<open>MissingName\<close>; no exception arises, the cache is left as it was, and so every later merge
  gives what it would have given without the descriptor.
\<close>

theorem missing_name_is_skipped:
  assumes "\<not> truthy (dict_get source ''name'')"
  shows "load_source env source self = self\<lparr>printed := printed self @ [MissingName]\<rparr>
       \<and> sources_cache (load_source env source self) = sources_cache self
       \<and> merge_sources_into_device (load_source env source self) ota_data
           = merge_sources_into_device self ota_data"
  using assms by (simp add: load_source_def merge_sources_into_device_def)

theorem missing_name_is_skipped_witness:
  "\<not> truthy (dict_get [(''type'', JStr ''local''), (''file'', JStr ''specs.json'')] ''name'')
   \<and> \<not> truthy (dict_get [(''name'', JStr ''''), (''type'', JStr ''local'')] ''name'')
   \<and> sources_cache (load_source serving_env
          [(''type'', JStr ''local''), (''file'', JStr ''specs.json'')] (fresh_reader [])) = []
   \<and> printed (load_source serving_env
          [(''name'', JStr ''''), (''type'', JStr ''local'')] (fresh_reader [])) = [MissingName]"
proof -
  have a: "\<not> truthy (dict_get [(''type'', JStr ''local''), (''file'', JStr ''specs.json'')] ''name'')"
    by (simp add: dict_get_def)
  have b: "\<not> truthy (dict_get [(''name'', JStr ''''), (''type'', JStr ''local'')] ''name'')"
    by (simp add: dict_get_def)
  show ?thesis
    using a b missing_name_is_skipped [OF a, of serving_env "fresh_reader []"]
      missing_name_is_skipped [OF b, of serving_env "fresh_reader []"]
    by (simp add: fresh_reader_def)
qed

subsection \<open>A false primary record\<close>

text \<open>
  C10. \<^verbatim>\<open>get_device_info\<close> returns \<^verbatim>\<open>None\<close> whenever the catalog reader's result is false, not
  only when it is \<^verbatim>\<open>None\<close>: an empty dictionary as the primary record is answered with
  \<^verbatim>\<open>None\<close>, neither merged nor returned.
\<close>

theorem falsy_primary_record_is_absent:
  assumes "reader_get_device_info jr id_field id_value = Inr ota"
    and "ota = None \<or> ota = Some []"
  shows "get_device_info jr self id_field id_value = Inr None"
  using assms by (auto simp add: get_device_info_def)

theorem falsy_primary_record_is_absent_witness:
  "reader_get_device_info empty_record_catalog ''id'' ''d1'' = Inr (Some [])
   \<and> get_device_info empty_record_catalog (fresh_reader [specs_source ''local'']) ''id'' ''d1''
       = Inr None"
proof -
  have a: "reader_get_device_info empty_record_catalog ''id'' ''d1'' = Inr (Some [])"
    by (simp add: empty_record_catalog_def)
  have "get_device_info empty_record_catalog (fresh_reader [specs_source ''local'']) ''id'' ''d1''
          = Inr None"
    by (rule falsy_primary_record_is_absent [OF a]) simp
  with a show ?thesis by simp
qed

subsection \<open>Dispatch on the source type\<close>

lemma dict_getitem_Some: "map_of d k = Some v \<Longrightarrow> dict_getitem d k = Inr v"
  by (simp add: dict_getitem_def)

text \<open>
  C1, as stated, fails on the code: the type tag of the remote fetcher is \<^verbatim>\<open>github\<close>, not
  \<^verbatim>\<open>remote\<close>. A descriptor of type \<^verbatim>\<open>github\<close>, which is not in \<open>{remote, local}\<close>, is fetched
  and gains a cache entry; a descriptor of type \<^verbatim>\<open>remote\<close> is an unknown type and is skipped
  with the warning.
\<close>

theorem github_type_counterexample:
  "JStr ''github'' \<noteq> JStr ''remote'' \<and> JStr ''github'' \<noteq> JStr ''local''
   \<and> sources_cache (load_source serving_env (specs_source ''github'') (fresh_reader []))
       = [(JStr ''specs'', \<lparr>data = specs_records, config = specs_source ''github''\<rparr>)]
   \<and> load_source serving_env (specs_source ''remote'') (fresh_reader [])
       = (fresh_reader [])\<lparr>printed := [UnknownType (JStr ''remote'') (JStr ''specs'')]\<rparr>"
  by (simp add: load_source_def try_load_def load_github_source_def cache_source_def
      dict_get_def dict_getitem_def specs_source_def fresh_reader_def serving_env_def
      specs_records_def Let_def)

text \<open>
  C1, amended. For a descriptor with a name and a \<^verbatim>\<open>type\<close> field:
  \<^item> a type other than \<^verbatim>\<open>github\<close> and \<^verbatim>\<open>local\<close> dispatches to no fetcher: whatever the
    collaborators are, the iteration only prints the warning that names the type and the
    source; the cache is unchanged and nothing is raised;
  \<^item> type \<^verbatim>\<open>github\<close> is fetched by \<^verbatim>\<open>_load_github_source\<close>, and the outcome does not depend on
    the local file system;
  \<^item> type \<^verbatim>\<open>local\<close> is fetched by \<^verbatim>\<open>_load_local_source\<close>, and the outcome does not depend on
    the GitHub client.
\<close>

theorem type_dispatch:
  assumes "truthy (dict_get source ''name'')"
    and "map_of source ''type'' = Some ty"
  shows "(ty \<noteq> JStr ''github'' \<and> ty \<noteq> JStr ''local'' \<longrightarrow>
            load_source env source self
              = self\<lparr>printed := printed self @ [UnknownType ty (dict_get source ''name'')]\<rparr>)
       \<and> (ty = JStr ''github'' \<longrightarrow>
            try_load env token source source_name c
              = (case load_github_source env token source of
                   Inl e \<Rightarrow> Inl e
                 | Inr raw \<Rightarrow> cache_source env source source_name raw c)
            \<and> load_source (env\<lparr>read_file := other\<rparr>) source self = load_source env source self)
       \<and> (ty = JStr ''local'' \<longrightarrow>
            try_load env token source source_name c
              = (case load_local_source env source of
                   Inl e \<Rightarrow> Inl e
                 | Inr raw \<Rightarrow> cache_source env source source_name raw c)
            \<and> load_source (env\<lparr>get_repo := other_repo, get_contents := other_contents\<rparr>) source self
                = load_source env source self)"
proof -
  have ty: "dict_getitem source ''type'' = Inr ty"
    using assms(2) by (rule dict_getitem_Some)
  have unknown: "ty \<noteq> JStr ''github'' \<and> ty \<noteq> JStr ''local'' \<longrightarrow>
            load_source env source self
              = self\<lparr>printed := printed self @ [UnknownType ty (dict_get source ''name'')]\<rparr>"
    using assms(1) ty by (simp add: load_source_def try_load_def py_eq_JStr)
  have gh1: "ty = JStr ''github'' \<longrightarrow>
            try_load env token source source_name c
              = (case load_github_source env token source of
                   Inl e \<Rightarrow> Inl e
                 | Inr raw \<Rightarrow> cache_source env source source_name raw c)"
    using ty by (simp add: try_load_def)
  have gh_fetch: "load_github_source (env\<lparr>read_file := other\<rparr>) tk source
                    = load_github_source env tk source" for tk
    by (simp add: load_github_source_def cong: sum.case_cong)
  have ex_each: "extract_each (env\<lparr>read_file := other\<rparr>) items schema = extract_each env items schema"
    for items schema
    by (induction items) (simp_all cong: sum.case_cong)
  have proj: "project (env\<lparr>read_file := other\<rparr>) raw st = project env raw st" for raw st
    by (induction "env\<lparr>read_file := other\<rparr>" raw st rule: project.induct) (simp_all add: ex_each)
  have cs: "cache_source (env\<lparr>read_file := other\<rparr>) source n raw c' = cache_source env source n raw c'"
    for n raw c'
    by (simp add: cache_source_def proj cong: sum.case_cong)
  have gh2: "ty = JStr ''github'' \<longrightarrow>
      load_source (env\<lparr>read_file := other\<rparr>) source self = load_source env source self"
    using ty by (simp add: load_source_def try_load_def gh_fetch cs Let_def cong: sum.case_cong)
  have loc1: "ty = JStr ''local'' \<longrightarrow>
            try_load env token source source_name c
              = (case load_local_source env source of
                   Inl e \<Rightarrow> Inl e
                 | Inr raw \<Rightarrow> cache_source env source source_name raw c)"
    using ty by (simp add: try_load_def)
  let ?env' = "env\<lparr>get_repo := other_repo, get_contents := other_contents\<rparr>"
  have loc_fetch: "load_local_source ?env' source = load_local_source env source"
    by (simp add: load_local_source_def cong: sum.case_cong json.case_cong)
  have ex_each': "extract_each ?env' items schema = extract_each env items schema"
    for items schema
    by (induction items) (simp_all cong: sum.case_cong)
  have proj': "project ?env' raw st = project env raw st" for raw st
    by (induction ?env' raw st rule: project.induct) (simp_all add: ex_each')
  have cs': "cache_source ?env' source n raw c' = cache_source env source n raw c'"
    for n raw c'
    by (simp add: cache_source_def proj' cong: sum.case_cong)
  have loc2: "ty = JStr ''local'' \<longrightarrow> load_source ?env' source self = load_source env source self"
    using ty by (simp add: load_source_def try_load_def loc_fetch cs' Let_def cong: sum.case_cong)
  from unknown gh1 gh2 loc1 loc2 show ?thesis by blast
qed

theorem type_dispatch_witness:
  "truthy (dict_get (specs_source ''zip'') ''name'')
   \<and> map_of (specs_source ''zip'') ''type'' = Some (JStr ''zip'')
   \<and> load_source failing_env (specs_source ''zip'') (fresh_reader [])
       = (fresh_reader [])\<lparr>printed := [UnknownType (JStr ''zip'') (JStr ''specs'')]\<rparr>
   \<and> load_source (serving_env\<lparr>read_file := (\<lambda>path. Inl (Failure ''No such file''))\<rparr>)
         (specs_source ''github'') (fresh_reader [])
       = load_source serving_env (specs_source ''github'') (fresh_reader [])
   \<and> load_source (serving_env\<lparr>get_repo := (\<lambda>token repo. Inl (Failure ''unreachable'')),
                               get_contents := (\<lambda>r file. Inl (Failure ''unreachable''))\<rparr>)
         (specs_source ''local'') (fresh_reader [])
       = load_source serving_env (specs_source ''local'') (fresh_reader [])"
proof -
  have n: "truthy (dict_get (specs_source ty) ''name'')" for ty
    by (simp add: specs_source_def dict_get_def)
  have t: "map_of (specs_source ty) ''type'' = Some (JStr ty)" for ty
    by (simp add: specs_source_def)
  have name: "dict_get (specs_source ty) ''name'' = JStr ''specs''" for ty
    by (simp add: specs_source_def dict_get_def)
  show ?thesis
    using n [of "''zip''"] t [of "''zip''"]
      type_dispatch [OF n t, where ty1 = "''zip''" and env = failing_env
        and self = "fresh_reader []"]
      type_dispatch [OF n t, where ty1 = "''github''" and env = serving_env
        and self = "fresh_reader []" and other = "\<lambda>path. Inl (Failure ''No such file'')"]
      type_dispatch [OF n t, where ty1 = "''local''" and env = serving_env
        and self = "fresh_reader []"
        and other_repo = "\<lambda>token repo. Inl (Failure ''unreachable'')"
        and other_contents = "\<lambda>r file. Inl (Failure ''unreachable'')"]
    by (simp add: name fresh_reader_def)
qed

subsection \<open>Failures stay inside the loop\<close>

lemma load_source_gh_token [simp]: "gh_token (load_source env source self) = gh_token self"
  by (simp add: load_source_def Let_def split: sum.splits prod.splits)

lemma load_sources_gh_token [simp]: "gh_token (load_sources env sources self) = gh_token self"
  by (induction sources arbitrary: self) simp_all

lemma cache_source_error_indep:
  "cache_source env source name raw c = Inl e \<Longrightarrow> cache_source env source name raw c' = Inl e"
  by (auto simp add: cache_source_def Let_def split: sum.splits if_splits)

lemma try_load_error_indep:
  "try_load env token source name c = Inl e \<Longrightarrow> try_load env token source name c' = Inl e"
  by (auto simp add: try_load_def split: sum.splits if_splits dest: cache_source_error_indep)

lemma load_source_cache_cong:
  "gh_token a = gh_token b \<Longrightarrow> sources_cache a = sources_cache b \<Longrightarrow>
   sources_cache (load_source env source a) = sources_cache (load_source env source b)"
  by (simp add: load_source_def Let_def split: sum.splits prod.splits)

lemma load_sources_cache_cong:
  "gh_token a = gh_token b \<Longrightarrow> sources_cache a = sources_cache b \<Longrightarrow>
   sources_cache (load_sources env sources a) = sources_cache (load_sources env sources b)"
proof (induction sources arbitrary: a b)
  case Nil
  then show ?case by simp
next
  case (Cons s ss)
  have "sources_cache (load_source env s a) = sources_cache (load_source env s b)"
    using Cons.prems by (rule load_source_cache_cong)
  then show ?case
    using Cons.IH [of "load_source env s a" "load_source env s b"] Cons.prems by simp
qed

lemma load_sources_append:
  "load_sources env (xs @ ys) self = load_sources env ys (load_sources env xs self)"
  by (induction xs arbitrary: self) simp_all

lemma load_source_printed_mono: "set (printed self) \<subseteq> set (printed (load_source env source self))"
  by (auto simp add: load_source_def Let_def split: sum.splits prod.splits)

lemma load_sources_printed_mono: "set (printed self) \<subseteq> set (printed (load_sources env sources self))"
proof (induction sources arbitrary: self)
  case Nil
  show ?case by simp
next
  case (Cons s ss)
  show ?case using Cons.IH [of "load_source env s self"] load_source_printed_mono [of self env s]
    by auto
qed

lemma load_source_raises:
  assumes "truthy (dict_get source ''name'')"
    and "try_load env (gh_token self) source (dict_get source ''name'') c = Inl e"
  shows "load_source env source self
           = self\<lparr>printed := printed self @ [LoadError (dict_get source ''name'') e]\<rparr>"
proof -
  have "try_load env (gh_token self) source (dict_get source ''name'') (sources_cache self) = Inl e"
    using assms(2) by (rule try_load_error_indep)
  with assms(1) show ?thesis by (simp add: load_source_def)
qed

lemma init_unfold:
  "init env (Some sources) token
     = load_sources env sources
         \<lparr>device_info_sources = sources, gh_token = token, sources_cache = [], printed = []\<rparr>"
  by (cases sources) (simp_all add: init_def load_all_sources_def)

text \<open>
  An exception raised while fetching, and one raised while projecting, are exceptions of the
  body of the \<^verbatim>\<open>try\<close>.
\<close>

lemma fetch_failure_raises:
  assumes "dict_getitem source ''type'' = Inr (JStr ''github'')
             \<and> load_github_source env token source = Inl e
           \<or> dict_getitem source ''type'' = Inr (JStr ''local'')
             \<and> load_local_source env source = Inl e"
  shows "try_load env token source source_name c = Inl e"
  using assms by (auto simp add: try_load_def)

lemma projection_failure_raises:
  assumes "dict_getitem source ''structure'' = Inr structure"
    and "project env raw structure = Inl e"
  shows "cache_source env source source_name raw c = Inl e"
  using assms by (simp add: cache_source_def)

text \<open>
  C2. Let a descriptor with a name raise \<open>e\<close> in the body of the \<^verbatim>\<open>try\<close> (fetching, projecting,
  or any other step). Wherever it stands among the configured sources, the constructor returns,
  with the cache it would have built without that descriptor and with the error logged under
  the source's name; and the loop goes on with the next descriptor.
\<close>

theorem failing_source_is_isolated:
  assumes "truthy (dict_get source ''name'')"
    and "try_load env token source (dict_get source ''name'') c = Inl e"
  shows "sources_cache (init env (Some (before @ source # rest)) token)
           = sources_cache (init env (Some (before @ rest)) token)
       \<and> LoadError (dict_get source ''name'') e
           \<in> set (printed (init env (Some (before @ source # rest)) token))
       \<and> (gh_token self = token \<longrightarrow>
            load_sources env (source # rest) self
              = load_sources env rest
                  (self\<lparr>printed := printed self @ [LoadError (dict_get source ''name'') e]\<rparr>))"
proof -
  let ?name = "dict_get source ''name''"
  let ?all = "before @ source # rest"
  define s0 where "s0 = \<lparr>device_info_sources = ?all, gh_token = token,
                         sources_cache = [], printed = []\<rparr>"
  define s1 where "s1 = \<lparr>device_info_sources = before @ rest, gh_token = token,
                         sources_cache = [], printed = []\<rparr>"
  define m0 where "m0 = load_sources env before s0"
  define m1 where "m1 = load_sources env before s1"
  have tok: "gh_token m0 = token" "gh_token m1 = token"
    by (simp_all add: m0_def m1_def s0_def s1_def)
  have same: "sources_cache m0 = sources_cache m1"
    unfolding m0_def m1_def by (rule load_sources_cache_cong) (simp_all add: s0_def s1_def)
  have step: "load_source env source m0 = m0\<lparr>printed := printed m0 @ [LoadError ?name e]\<rparr>"
    using assms tok(1) by (simp add: load_source_raises)
  have lhs: "init env (Some ?all) token = load_sources env rest (load_source env source m0)"
    by (simp add: init_unfold load_sources_append m0_def s0_def)
  have rhs: "init env (Some (before @ rest)) token = load_sources env rest m1"
    by (simp add: init_unfold load_sources_append m1_def s1_def)
  have "sources_cache (load_sources env rest (load_source env source m0))
          = sources_cache (load_sources env rest m1)"
    by (rule load_sources_cache_cong) (simp_all add: step tok same)
  then have one: "sources_cache (init env (Some ?all) token)
                    = sources_cache (init env (Some (before @ rest)) token)"
    by (simp add: lhs rhs)
  have "LoadError ?name e \<in> set (printed (load_source env source m0))"
    by (simp add: step)
  then have two: "LoadError ?name e \<in> set (printed (init env (Some ?all) token))"
    using load_sources_printed_mono [of "load_source env source m0" env rest] by (auto simp add: lhs)
  have three: "gh_token self = token \<longrightarrow>
            load_sources env (source # rest) self
              = load_sources env rest
                  (self\<lparr>printed := printed self @ [LoadError ?name e]\<rparr>)"
    using assms by (simp add: load_source_raises)
  from one two three show ?thesis by blast
qed

theorem failing_source_is_isolated_witness:
  "truthy (dict_get vendors_source ''name'')
   \<and> try_load offline_env None vendors_source (dict_get vendors_source ''name'') []
       = Inl (Failure ''unreachable'')
   \<and> sources_cache (init offline_env (Some [vendors_source, specs_source ''local'']) None)
       = sources_cache (init offline_env (Some [specs_source ''local'']) None)
   \<and> LoadError (JStr ''vendors'') (Failure ''unreachable'')
       \<in> set (printed (init offline_env (Some [vendors_source, specs_source ''local'']) None))
   \<and> gh_token (fresh_reader []) = None
   \<and> load_sources offline_env [vendors_source, specs_source ''local''] (fresh_reader [])
       = load_sources offline_env [specs_source ''local'']
           ((fresh_reader [])\<lparr>printed := [LoadError (JStr ''vendors'') (Failure ''unreachable'')]\<rparr>)"
proof -
  have name: "dict_get vendors_source ''name'' = JStr ''vendors''"
    by (simp add: vendors_source_def dict_get_def)
  have n: "truthy (dict_get vendors_source ''name'')"
    by (simp add: name)
  have f: "try_load offline_env None vendors_source (dict_get vendors_source ''name'') []
             = Inl (Failure ''unreachable'')"
    by (simp add: try_load_def load_github_source_def dict_getitem_def vendors_source_def
        offline_env_def)
  have t: "gh_token (fresh_reader []) = None" "printed (fresh_reader []) = []"
    by (simp_all add: fresh_reader_def)
  show ?thesis
    using n f t
      failing_source_is_isolated [OF n f, where before = "[]"
        and rest = "[specs_source ''local'']" and self = "fresh_reader []"]
    by (simp add: name)
qed

subsection \<open>The cached data is a sequence\<close>

lemma normalize_is_list: "is_list (normalize_extracted v)"
  by (cases v) simp_all

lemma cache_setitem_entry:
  "(k', e) \<in> set (cache_setitem c k v) \<Longrightarrow> e = v \<or> (k', e) \<in> set c"
  by (induction c) (auto split: if_splits)

lemma cache_setitem_values: "snd ` set (cache_setitem c k v) \<subseteq> insert v (snd ` set c)"
  using cache_setitem_entry [of _ _ c k v] by force

lemma py_eq_refl_hashable: "hashable k \<Longrightarrow> py_eq k k"
  by (cases k) simp_all

lemma cache_find_setitem: "hashable k \<Longrightarrow> cache_find (cache_setitem c k v) k = Some v"
  by (induction c) (auto simp add: py_eq_refl_hashable)

lemma cache_source_data:
  assumes "cache_source env source name raw c = Inr (c', line)"
    and "\<forall>entry \<in> set c. is_list (data (snd entry))"
  shows "\<forall>entry \<in> set c'. is_list (data (snd entry))"
proof -
  from assms(1) obtain v where c': "c' = cache_setitem c name \<lparr>data = normalize_extracted v, config = source\<rparr>"
    by (auto simp add: cache_source_def Let_def split: sum.splits if_splits)
  show ?thesis
  proof
    fix entry assume "entry \<in> set c'"
    then have "snd entry \<in> insert \<lparr>data = normalize_extracted v, config = source\<rparr> (snd ` set c)"
      using cache_setitem_values [of c name "\<lparr>data = normalize_extracted v, config = source\<rparr>"] c' by auto
    then show "is_list (data (snd entry))"
      using assms(2) by (auto simp add: normalize_is_list)
  qed
qed

lemma try_load_data:
  assumes "try_load env token source name c = Inr (c', line)"
    and "\<forall>entry \<in> set c. is_list (data (snd entry))"
  shows "\<forall>entry \<in> set c'. is_list (data (snd entry))"
  using assms
  by (auto simp add: try_load_def split: sum.splits if_splits dest: cache_source_data)

lemma load_source_data:
  assumes "\<forall>entry \<in> set (sources_cache self). is_list (data (snd entry))"
  shows "\<forall>entry \<in> set (sources_cache (load_source env source self)). is_list (data (snd entry))"
proof (cases "try_load env (gh_token self) source (dict_get source ''name'') (sources_cache self)")
  case (Inl e)
  then show ?thesis using assms by (simp add: load_source_def Let_def)
next
  case (Inr p)
  obtain c' line where p: "p = (c', line)" by (cases p)
  have "\<forall>entry \<in> set c'. is_list (data (snd entry))"
    using Inr assms unfolding p by (rule try_load_data)
  then show ?thesis using Inr p assms by (simp add: load_source_def Let_def)
qed

lemma load_sources_data:
  "\<forall>entry \<in> set (sources_cache self). is_list (data (snd entry)) \<Longrightarrow>
   \<forall>entry \<in> set (sources_cache (load_sources env sources self)). is_list (data (snd entry))"
proof (induction sources arbitrary: self)
  case Nil
  then show ?case by simp
next
  case (Cons s ss)
  from Cons.prems have "\<forall>entry \<in> set (sources_cache (load_source env s self)). is_list (data (snd entry))"
    by (rule load_source_data)
  then show ?case using Cons.IH by simp
qed

lemma init_data: "\<forall>entry \<in> set (sources_cache (init env sources token)). is_list (data (snd entry))"
proof (cases "\<exists>l. sources = Some l \<and> l \<noteq> []")
  case True
  then obtain l where "sources = Some l" "l \<noteq> []" by blast
  then show ?thesis
    using load_sources_data [of "\<lparr>device_info_sources = l, gh_token = token, sources_cache = [], printed = []\<rparr>" env l]
    by (simp add: init_def load_all_sources_def)
next
  case False
  then show ?thesis by (cases sources) (auto simp add: init_def)
qed

text \<open>The keys of the cache are hashable: \<open>py_str\<close> formats scalars only.\<close>

lemma cache_setitem_key:
  "(k', e) \<in> set (cache_setitem c k v) \<Longrightarrow> k' = k \<or> k' \<in> fst ` set c"
  by (induction c) (force split: if_splits)+

lemma cache_setitem_keys: "fst ` set (cache_setitem c k v) \<subseteq> insert k (fst ` set c)"
  using cache_setitem_key [of _ _ c k v] by force

lemma try_load_keys:
  assumes "try_load env token source name c = Inr (c', line)"
    and "\<forall>entry \<in> set c. hashable (fst entry)"
  shows "\<forall>entry \<in> set c'. hashable (fst entry)"
proof -
  from assms(1) have "c' = c \<or> (\<exists>v. hashable name \<and> c' = cache_setitem c name v)"
    by (auto simp add: try_load_def cache_source_def Let_def split: sum.splits if_splits)
  then show ?thesis
  proof
    assume "c' = c"
    with assms(2) show ?thesis by simp
  next
    assume "\<exists>v. hashable name \<and> c' = cache_setitem c name v"
    then obtain v where h: "hashable name" and c': "c' = cache_setitem c name v" by blast
    show ?thesis
    proof
      fix entry assume "entry \<in> set c'"
      then have "fst entry \<in> insert name (fst ` set c)"
        using cache_setitem_keys [of c name v] c' by auto
      with h assms(2) show "hashable (fst entry)" by auto
    qed
  qed
qed

lemma load_sources_keys:
  "\<forall>entry \<in> set (sources_cache self). hashable (fst entry) \<Longrightarrow>
   \<forall>entry \<in> set (sources_cache (load_sources env sources self)). hashable (fst entry)"
proof (induction sources arbitrary: self)
  case Nil
  then show ?case by simp
next
  case (Cons s ss)
  have "\<forall>entry \<in> set (sources_cache (load_source env s self)). hashable (fst entry)"
  proof (cases "try_load env (gh_token self) s (dict_get s ''name'') (sources_cache self)")
    case (Inl e)
    then show ?thesis using Cons.prems by (simp add: load_source_def Let_def)
  next
    case (Inr p)
    obtain c' line where p: "p = (c', line)" by (cases p)
    have "\<forall>entry \<in> set c'. hashable (fst entry)"
      using Inr Cons.prems unfolding p by (rule try_load_keys)
    then show ?thesis using Inr p Cons.prems by (simp add: load_source_def Let_def)
  qed
  then show ?case using Cons.IH by simp
qed

lemma init_keys_hashable:
  "\<forall>entry \<in> set (sources_cache (init env sources token)). hashable (fst entry)"
proof (cases "\<exists>l. sources = Some l \<and> l \<noteq> []")
  case True
  then obtain l where "sources = Some l" "l \<noteq> []" by blast
  then show ?thesis
    using load_sources_keys [of "\<lparr>device_info_sources = l, gh_token = token,
                                   sources_cache = [], printed = []\<rparr>" env l]
    by (simp add: init_def load_all_sources_def)
next
  case False
  then show ?thesis by (cases sources) (auto simp add: init_def)
qed

text \<open>
  C7. After construction the \<^verbatim>\<open>data\<close> of every cache entry is a list. A projection result
  that is a list is stored as it is, any other true value as the list of that one value, and
  any other false value as the empty list; the stored entry is the one found under the
  source's name.
\<close>

theorem cached_data_is_a_sequence:
  "(\<forall>entry \<in> set (sources_cache (init env sources token)). is_list (data (snd entry)))
   \<and> (is_list v \<longrightarrow> normalize_extracted v = v)
   \<and> (\<not> is_list v \<and> truthy v \<longrightarrow> normalize_extracted v = JList [v])
   \<and> (\<not> is_list v \<and> \<not> truthy v \<longrightarrow> normalize_extracted v = JList [])
   \<and> (dict_getitem source ''structure'' = Inr schema \<and> project env raw schema = Inr v
        \<and> hashable source_name \<longrightarrow>
      cache_source env source source_name raw c
        = Inr (cache_setitem c source_name \<lparr>data = normalize_extracted v, config = source\<rparr>,
               Loaded (py_len (normalize_extracted v)) source_name)
      \<and> cache_find (cache_setitem c source_name \<lparr>data = normalize_extracted v, config = source\<rparr>) source_name
          = Some \<lparr>data = normalize_extracted v, config = source\<rparr>)"
proof -
  have a: "is_list v \<longrightarrow> normalize_extracted v = v" by (cases v) simp_all
  have b: "\<not> is_list v \<and> truthy v \<longrightarrow> normalize_extracted v = JList [v]" by (cases v) simp_all
  have c: "\<not> is_list v \<and> \<not> truthy v \<longrightarrow> normalize_extracted v = JList []" by (cases v) simp_all
  have d: "dict_getitem source ''structure'' = Inr schema \<and> project env raw schema = Inr v
        \<and> hashable source_name \<longrightarrow>
      cache_source env source source_name raw c
        = Inr (cache_setitem c source_name \<lparr>data = normalize_extracted v, config = source\<rparr>,
               Loaded (py_len (normalize_extracted v)) source_name)
      \<and> cache_find (cache_setitem c source_name \<lparr>data = normalize_extracted v, config = source\<rparr>) source_name
          = Some \<lparr>data = normalize_extracted v, config = source\<rparr>"
    by (simp add: cache_source_def Let_def cache_find_setitem)
  from init_data a b c d show ?thesis by blast
qed

theorem cached_data_is_a_sequence_witness:
  "(JStr ''specs'', \<lparr>data = specs_records, config = specs_source ''local''\<rparr>)
     \<in> set (sources_cache (init serving_env (Some [specs_source ''local'']) None))
   \<and> is_list (data (snd (JStr ''specs'', \<lparr>data = specs_records, config = specs_source ''local''\<rparr>)))
   \<and> normalize_extracted (JList [JInt 1, JInt 2]) = JList [JInt 1, JInt 2]
   \<and> normalize_extracted (JDict [(''model'', JStr ''X1'')]) = JList [JDict [(''model'', JStr ''X1'')]]
   \<and> normalize_extracted (JDict []) = JList []
   \<and> cache_source serving_env (specs_source ''local'') (JStr ''specs'') (JDict [(''model'', JStr ''X1'')]) []
       = Inr ([(JStr ''specs'',
                \<lparr>data = JList [JDict [(''model'', JStr ''X1'')]], config = specs_source ''local''\<rparr>)],
              Loaded 1 (JStr ''specs''))"
proof -
  have m: "(JStr ''specs'', \<lparr>data = specs_records, config = specs_source ''local''\<rparr>)
             \<in> set (sources_cache (init serving_env (Some [specs_source ''local'']) None))"
    by (simp add: init_def load_all_sources_def load_source_def try_load_def
        load_local_source_def cache_source_def dict_get_def dict_getitem_def specs_source_def
        serving_env_def specs_records_def Let_def)
  have s: "dict_getitem (specs_source ''local'') ''structure'' = Inr (JDict [])"
    by (simp add: dict_getitem_def specs_source_def)
  have p: "extract_data serving_env v schema = Inr v" for v schema
    by (simp add: serving_env_def)
  show ?thesis
    using m s
      cached_data_is_a_sequence [where env = serving_env
        and sources = "Some [specs_source ''local'']" and token = None
        and v = "JList [JInt 1, JInt 2]"]
      cached_data_is_a_sequence [where env = serving_env
        and sources = "Some [specs_source ''local'']" and token = None
        and v = "JDict [(''model'', JStr ''X1'')]" and source = "specs_source ''local''"
        and schema = "JDict []" and raw = "JDict [(''model'', JStr ''X1'')]"
        and source_name = "JStr ''specs''" and c = "[]"]
      cached_data_is_a_sequence [where env = serving_env
        and sources = "Some [specs_source ''local'']" and token = None
        and v = "JDict []"]
    by (simp add: p specs_records_def)
qed

subsection \<open>Lookup in a cached source\<close>

lemma dict_get_dyn_hashable:
  "hashable f \<Longrightarrow> dict_get_dyn d f = Inr (case f of JStr s \<Rightarrow> dict_get d s | _ \<Rightarrow> JNull)"
  by (cases f) (simp_all add: dict_get_dyn_def)

lemma scan_items_no_match:
  assumes "hashable f" and "\<forall>item \<in> set items. \<not> spec_matches f v item"
  shows "scan_items items f v = Inr None"
  using assms(2)
proof (induction items)
  case Nil
  show ?case by simp
next
  case (Cons item items)
  then show ?case
    using assms(1) by (cases item) (simp_all add: spec_matches_def dict_get_dyn_hashable)
qed

lemma scan_items_first_match:
  assumes "hashable f" and "\<forall>item \<in> set pre. \<not> spec_matches f v item"
    and "spec_matches f v (JDict d)"
  shows "scan_items (pre @ JDict d # post) f v = Inr (Some d)"
  using assms(2)
proof (induction pre)
  case Nil
  show ?case using assms(1,3) by (simp add: spec_matches_def dict_get_dyn_hashable)
next
  case (Cons item pre)
  then show ?case
    using assms(1) by (cases item) (simp_all add: spec_matches_def dict_get_dyn_hashable)
qed

text \<open>
  C5. For a hashable source name and lookup field, \<^verbatim>\<open>_lookup_in_source\<close> over a cached list
  scans in load order: it reports not-found when the name is not in the cache, and when no
  record matches; and it returns a matching record that no matching record precedes, whatever
  follows it, so of duplicate matches the first in load order is returned. Matching is
  Python's \<^verbatim>\<open>==\<close> between the record's field and the value, with no conversion of either.
\<close>

theorem lookup_returns_first_match:
  assumes "hashable source_name" and "hashable lookup_field"
  shows "(cache_find c source_name = None \<longrightarrow>
            lookup_in_source c source_name lookup_field lookup_value = Inr None)
       \<and> (cache_find c source_name = Some cached \<and> data cached = JList items
            \<and> (\<forall>item \<in> set items. \<not> spec_matches lookup_field lookup_value item) \<longrightarrow>
            lookup_in_source c source_name lookup_field lookup_value = Inr None)
       \<and> (cache_find c source_name = Some cached \<and> data cached = JList (pre @ JDict d # post)
            \<and> (\<forall>item \<in> set pre. \<not> spec_matches lookup_field lookup_value item)
            \<and> spec_matches lookup_field lookup_value (JDict d) \<longrightarrow>
            lookup_in_source c source_name lookup_field lookup_value = Inr (Some d))"
  using assms
  by (simp add: lookup_in_source_def scan_items_no_match scan_items_first_match)

theorem lookup_returns_first_match_witness:
  "hashable (JStr ''specs'') \<and> hashable (JStr ''model'')
   \<and> spec_matches (JStr ''model'') (JStr ''X1'')
        (JDict [(''model'', JStr ''X1''), (''ram'', JStr ''8GB'')])
   \<and> spec_matches (JStr ''model'') (JStr ''X1'')
        (JDict [(''model'', JStr ''X1''), (''ram'', JStr ''16GB'')])
   \<and> lookup_in_source two_source_cache (JStr ''specs'') (JStr ''model'') (JStr ''X1'')
       = Inr (Some [(''model'', JStr ''X1''), (''ram'', JStr ''8GB'')])
   \<and> lookup_in_source two_source_cache (JStr ''specs'') (JStr ''model'') (JStr ''Z9'') = Inr None
   \<and> lookup_in_source two_source_cache (JStr ''specs'') (JStr ''model'') (JInt 1) = Inr None
   \<and> lookup_in_source two_source_cache (JStr ''gpus'') (JStr ''model'') (JStr ''X1'') = Inr None"
proof -
  let ?first = "[(''model'', JStr ''X1''), (''ram'', JStr ''8GB'')]"
  let ?second = "[(''model'', JStr ''X1''), (''ram'', JStr ''16GB'')]"
  let ?cached = "\<lparr>data = JList [JDict ?first, JDict ?second], config = specs_source ''local''\<rparr>"
  have h: "hashable (JStr ''specs'')" "hashable (JStr ''model'')" "hashable (JStr ''gpus'')"
    by simp_all
  have found: "cache_find two_source_cache (JStr ''specs'') = Some ?cached"
    by (simp add: two_source_cache_def)
  have absent: "cache_find two_source_cache (JStr ''gpus'') = None"
    by (simp add: two_source_cache_def)
  have m: "spec_matches (JStr ''model'') (JStr ''X1'') (JDict ?first)"
    "spec_matches (JStr ''model'') (JStr ''X1'') (JDict ?second)"
    by (simp_all add: spec_matches_def dict_get_def)
  have n: "\<forall>item \<in> set [JDict ?first, JDict ?second].
             \<not> spec_matches (JStr ''model'') v item" if "v = JStr ''Z9'' \<or> v = JInt 1" for v
    using that by (auto simp add: spec_matches_def dict_get_def)
  show ?thesis
    using h m found absent n
      lookup_returns_first_match [OF h(1) h(2), where c = two_source_cache
        and lookup_value = "JStr ''X1''" and cached = ?cached and pre = "[]"
        and d = ?first and post = "[JDict ?second]"]
      lookup_returns_first_match [OF h(1) h(2), where c = two_source_cache
        and lookup_value = "JStr ''Z9''" and cached = ?cached
        and items = "[JDict ?first, JDict ?second]"]
      lookup_returns_first_match [OF h(1) h(2), where c = two_source_cache
        and lookup_value = "JInt 1" and cached = ?cached
        and items = "[JDict ?first, JDict ?second]"]
      lookup_returns_first_match [OF h(3) h(2), where c = two_source_cache
        and lookup_value = "JStr ''X1''"]
    by simp
qed

subsection \<open>Resolving the match value\<close>

lemma merge_sources_append:
  "merge_sources lookup ota cur (xs @ ys)
     = (case merge_sources lookup ota cur xs of
          Inl e \<Rightarrow> Inl e
        | Inr cur' \<Rightarrow> merge_sources lookup ota cur' ys)"
  by (induction xs arbitrary: cur) (simp_all split: sum.splits)

lemma dict_update_Nil: "dict_update d (prefixed n []) = d"
  by (simp add: prefixed_def)

text \<open>
  C3. When the loop reaches a cached source whose \<^verbatim>\<open>lookup_field\<close> is set, with
  \<open>current_data\<close> the record accumulated over the sources before it, the match value is the
  one the specification describes: \<^verbatim>\<open>match_from\<close>, if set, read from \<open>current_data\<close>, and
  otherwise \<^verbatim>\<open>lookup_field\<close> read from the original \<open>ota_data\<close>. A false value skips the
  source: the record goes on unchanged, whatever the lookup would have answered.
\<close>

theorem match_value_resolution:
  assumes "merge_sources lookup ota_data ota_data earlier = Inr current_data"
    and "truthy (dict_get (config cached) ''lookup_field'')"
  shows "merge_sources lookup ota_data ota_data (earlier @ (source_name, cached) # later)
      = (case spec_match_value (config cached) ota_data current_data of
           Inl e \<Rightarrow> Inl e
         | Inr v \<Rightarrow>
             if \<not> truthy v then merge_sources lookup ota_data current_data later
             else
               (case lookup source_name (dict_get (config cached) ''lookup_field'') v of
                  Inl e \<Rightarrow> Inl e
                | Inr None \<Rightarrow> merge_sources lookup ota_data current_data later
                | Inr (Some match) \<Rightarrow>
                    merge_sources lookup ota_data
                      (dict_update current_data (prefixed source_name match)) later))
    \<and> (\<forall>v. spec_match_value (config cached) ota_data current_data = Inr v \<and> \<not> truthy v \<longrightarrow>
          merge_source any_lookup ota_data current_data (source_name, cached) = Inr current_data)"
  using assms
  by (auto simp add: merge_sources_append merge_source_def spec_match_value_def Let_def
      dict_update_Nil split: sum.splits option.splits)

theorem match_value_resolution_witness:
  "merge_sources (lookup_in_source two_source_cache) primary_d1 primary_d1 [hd two_source_cache]
     = Inr [(''id'', JStr ''d1''), (''model'', JStr ''X1''),
            (''specs_model'', JStr ''X1''), (''specs_ram'', JStr ''8GB'')]
   \<and> truthy (dict_get vendors_source ''lookup_field'')
   \<and> spec_match_value vendors_source primary_d1 primary_d1 = Inr JNull
   \<and> spec_match_value vendors_source primary_d1
        [(''id'', JStr ''d1''), (''model'', JStr ''X1''),
         (''specs_model'', JStr ''X1''), (''specs_ram'', JStr ''8GB'')] = Inr (JStr ''8GB'')
   \<and> merge_sources_into_device two_source_reader primary_d1
       = Inr [(''id'', JStr ''d1''), (''model'', JStr ''X1''),
              (''specs_model'', JStr ''X1''), (''specs_ram'', JStr ''8GB''),
              (''vendors_ram'', JStr ''8GB''), (''vendors_vendor'', JStr ''Acme'')]
   \<and> merge_source (\<lambda>source_name lookup_field lookup_value. Inl (Failure ''lookup attempted''))
         primary_d1 primary_d1 (two_source_cache ! 1) = Inr primary_d1"
proof -
  let ?cur = "[(''id'', JStr ''d1''), (''model'', JStr ''X1''),
               (''specs_model'', JStr ''X1''), (''specs_ram'', JStr ''8GB'')]"
  let ?vendors = "\<lparr>data = JList [JDict [(''ram'', JStr ''16GB''), (''vendor'', JStr ''Beta'')],
                                 JDict [(''ram'', JStr ''8GB''), (''vendor'', JStr ''Acme'')]],
                   config = vendors_source\<rparr>"
  have split: "two_source_cache = [hd two_source_cache] @ (JStr ''vendors'', ?vendors) # []"
    by (simp add: two_source_cache_def)
  have a: "merge_sources (lookup_in_source two_source_cache) primary_d1 primary_d1
             [hd two_source_cache] = Inr ?cur"
    by (simp add: two_source_cache_def merge_source_def lookup_in_source_def dict_get_def
        dict_get_dyn_def specs_source_def primary_d1_def prefixed_def prefixed_key_def)
  have b: "truthy (dict_get (config ?vendors) ''lookup_field'')"
    by (simp add: dict_get_def vendors_source_def)
  have v0: "spec_match_value vendors_source primary_d1 primary_d1 = Inr JNull"
    by (simp add: spec_match_value_def dict_get_def dict_get_dyn_def vendors_source_def
        primary_d1_def)
  have v1: "spec_match_value vendors_source primary_d1 ?cur = Inr (JStr ''8GB'')"
    by (simp add: spec_match_value_def dict_get_def dict_get_dyn_def vendors_source_def)
  have lf: "dict_get vendors_source ''lookup_field'' = JStr ''ram''"
    by (simp add: dict_get_def vendors_source_def)
  have lk: "lookup_in_source two_source_cache (JStr ''vendors'') (JStr ''ram'') (JStr ''8GB'')
              = Inr (Some [(''ram'', JStr ''8GB''), (''vendor'', JStr ''Acme'')])"
    by (simp add: two_source_cache_def lookup_in_source_def dict_get_def dict_get_dyn_def)
  have "merge_sources_into_device two_source_reader primary_d1
          = merge_sources (lookup_in_source two_source_cache) primary_d1 primary_d1
              ([hd two_source_cache] @ (JStr ''vendors'', ?vendors) # [])"
    using split by (simp add: merge_sources_into_device_def two_source_reader_def)
  moreover have second: "two_source_cache ! 1 = (JStr ''vendors'', ?vendors)"
    by (simp add: two_source_cache_def)
  moreover have start: "merge_sources (lookup_in_source two_source_cache) primary_d1 primary_d1 []
                          = Inr primary_d1"
    by simp
  ultimately show ?thesis
    using a b v0 v1
      match_value_resolution [OF a b, where source_name = "JStr ''vendors''" and later = "[]"]
      match_value_resolution [OF start b, where source_name = "JStr ''vendors''"
        and any_lookup = "\<lambda>source_name lookup_field lookup_value. Inl (Failure ''lookup attempted'')"]
    by (simp add: lf lk prefixed_def prefixed_key_def)
qed

subsection \<open>Merging without a match\<close>

lemma merge_source_no_match:
  assumes "spec_no_match c ota entry"
  shows "merge_source (lookup_in_source c) ota ota entry = Inr ota"
  using assms
  by (auto simp add: spec_no_match_def merge_source_def spec_match_value_def Let_def
      split: sum.splits if_splits)

lemma merge_sources_no_match:
  assumes "\<forall>entry \<in> set entries. spec_no_match c ota entry"
  shows "merge_sources (lookup_in_source c) ota ota entries = Inr ota"
  using assms by (induction entries) (simp_all add: merge_source_no_match)

text \<open>
  C6. When no cached source produces a match for the primary record (for each source: the
  lookup field is unset, or the match value is false, or the lookup finds no record), the merge
  returns the primary record itself, field for field, with nothing added.
\<close>

theorem no_match_returns_primary:
  assumes "\<forall>entry \<in> set (sources_cache self). spec_no_match (sources_cache self) ota_data entry"
  shows "merge_sources_into_device self ota_data = Inr ota_data"
  using assms by (simp add: merge_sources_into_device_def merge_sources_no_match)

theorem no_match_returns_primary_witness:
  "spec_no_match (sources_cache two_source_reader)
     [(''id'', JStr ''d2''), (''model'', JStr ''Z9'')] (sources_cache two_source_reader ! 0)
   \<and> spec_no_match (sources_cache two_source_reader)
     [(''id'', JStr ''d2''), (''model'', JStr ''Z9'')] (sources_cache two_source_reader ! 1)
   \<and> length (sources_cache two_source_reader) = 2
   \<and> merge_sources_into_device two_source_reader [(''id'', JStr ''d2''), (''model'', JStr ''Z9'')]
       = Inr [(''id'', JStr ''d2''), (''model'', JStr ''Z9'')]"
proof -
  have a: "\<forall>entry \<in> set (sources_cache two_source_reader).
      spec_no_match (sources_cache two_source_reader)
        [(''id'', JStr ''d2''), (''model'', JStr ''Z9'')] entry"
    by (simp add: two_source_reader_def two_source_cache_def spec_no_match_def
        spec_match_value_def lookup_in_source_def dict_get_def dict_get_dyn_def
        specs_source_def vendors_source_def)
  have l: "length (sources_cache two_source_reader) = 2"
    by (simp add: two_source_reader_def two_source_cache_def)
  from a l have "spec_no_match (sources_cache two_source_reader)
     [(''id'', JStr ''d2''), (''model'', JStr ''Z9'')] (sources_cache two_source_reader ! 0)"
    "spec_no_match (sources_cache two_source_reader)
     [(''id'', JStr ''d2''), (''model'', JStr ''Z9'')] (sources_cache two_source_reader ! 1)"
    by simp_all
  with l no_match_returns_primary [OF a] show ?thesis by simp
qed

subsection \<open>Prefixed fields\<close>

lemma map_of_dict_setitem: "map_of (dict_setitem d k v) = (map_of d)(k \<mapsto> v)"
  by (induction d) (auto simp add: fun_eq_iff)

lemma keys_dict_setitem: "fst ` set (dict_setitem d k v) = insert k (fst ` set d)"
proof -
  have "dom (map_of (dict_setitem d k v)) = insert k (dom (map_of d))"
    by (simp add: map_of_dict_setitem)
  then show ?thesis by (simp add: dom_map_of_conv_image_fst)
qed

lemma keys_dict_update: "fst ` set (dict_update d other) = fst ` set d \<union> fst ` set other"
  by (induction d other rule: dict_update.induct) (auto simp add: keys_dict_setitem)

lemma map_of_dict_update:
  "distinct (map fst other) \<Longrightarrow> map_of (dict_update d other) = map_of d ++ map_of other"
proof (induction d other rule: dict_update.induct)
  case (1 d)
  show ?case by simp
next
  case (2 d k v other)
  from "2.prems" have k: "k \<notin> dom (map_of other)" and dist: "distinct (map fst other)"
    by (auto simp add: dom_map_of_conv_image_fst)
  have "map_of (dict_update (dict_setitem d k v) other)
          = map_of (dict_setitem d k v) ++ map_of other"
    using dist by (rule "2.IH")
  also have "\<dots> = (map_of d)(k \<mapsto> v) ++ map_of other"
    by (simp only: map_of_dict_setitem)
  also have "\<dots> = (map_of d ++ map_of other)(k \<mapsto> v)"
    using k by (rule map_add_upd_left)
  also have "\<dots> = map_of d ++ map_of ((k, v) # other)"
    by (simp only: map_of.simps fst_conv snd_conv map_add_upd)
  finally show ?case by (simp only: dict_update.simps)
qed

lemma prefixed_key_inj: "prefixed_key n k = prefixed_key n k' \<longleftrightarrow> k = k'"
  by (simp add: prefixed_key_def)

lemma keys_prefixed: "map fst (prefixed n m) = map (prefixed_key n) (map fst m)"
  by (simp add: prefixed_def case_prod_beta comp_def)

lemma distinct_prefixed: "distinct (map fst m) \<Longrightarrow> distinct (map fst (prefixed n m))"
  by (simp add: keys_prefixed distinct_map inj_on_def prefixed_key_inj del: map_map)

lemma map_of_prefixed: "map_of (prefixed n m) (prefixed_key n k) = map_of m k"
  by (induction m) (auto simp add: prefixed_def prefixed_key_inj)

lemma key_set_prefixed: "fst ` set (prefixed n m) = prefixed_key n ` fst ` set m"
  using keys_prefixed [of n m] by (metis list.set_map)

lemma map_of_prefixed_other:
  "j \<notin> prefixed_key n ` fst ` set m \<Longrightarrow> map_of (prefixed n m) j = None"
  by (simp add: map_of_eq_None_iff key_set_prefixed)

text \<open>
  C4, as stated, fails on the code. The source \<^verbatim>\<open>S\<close> matches the primary record
  \<^verbatim>\<open>{"x": "v"}\<close> with its record \<^verbatim>\<open>{"x": "v", "S_x": "w"}\<close>; the merged output has the key
  \<^verbatim>\<open>S_x\<close>, which is a bare key of the matched record and is not a key of the primary record.
\<close>

theorem bare_key_counterexample:
  "lookup_in_source (sources_cache colliding_reader) (JStr ''S'') (JStr ''x'') (JStr ''v'')
     = Inr (Some [(''x'', JStr ''v''), (''S_x'', JStr ''w'')])
   \<and> merge_sources_into_device colliding_reader [(''x'', JStr ''v'')]
       = Inr [(''x'', JStr ''v''), (''S_x'', JStr ''v''), (''S_S_x'', JStr ''w'')]
   \<and> ''S_x'' \<in> fst ` set [(''x'', JStr ''v''), (''S_x'', JStr ''w'')]
   \<and> ''S_x'' \<notin> fst ` set [(''x'', JStr ''v'')]
   \<and> ''S_x'' \<in> fst ` set [(''x'', JStr ''v''), (''S_x'', JStr ''v''), (''S_S_x'', JStr ''w'')]"
  by (simp add: colliding_reader_def merge_sources_into_device_def merge_source_def
      lookup_in_source_def dict_get_def dict_get_dyn_def prefixed_def prefixed_key_def)

text \<open>
  C4, amended. When the lookup of a source finds a record, the step returns the accumulating
  record overlaid with every field of the matched record under the key
  \<^verbatim>\<open>"<source_name>_<field>"\<close>: each such key holds the matched value, whatever it held before,
  and every other key is as it was. So a bare key of the matched record is a key of the result
  only if it was a key of the accumulating record already or is itself one of the prefixed
  keys.
\<close>

theorem matched_fields_are_prefixed:
  assumes "truthy (dict_get (config cached) ''lookup_field'')"
    and "spec_match_value (config cached) ota_data current_data = Inr v"
    and "truthy v"
    and "lookup source_name (dict_get (config cached) ''lookup_field'') v = Inr (Some match)"
    and "distinct (map fst match)"
  shows "\<exists>merged.
           merge_source lookup ota_data current_data (source_name, cached) = Inr merged
         \<and> (\<forall>(k, x) \<in> set match. map_of merged (prefixed_key source_name k) = Some x)
         \<and> (\<forall>j. j \<notin> prefixed_key source_name ` fst ` set match \<longrightarrow>
                map_of merged j = map_of current_data j)
         \<and> (\<forall>k \<in> fst ` set match.
                k \<in> fst ` set merged \<longleftrightarrow>
                  k \<in> fst ` set current_data
                  \<or> k \<in> prefixed_key source_name ` fst ` set match)"
proof -
  let ?merged = "dict_update current_data (prefixed source_name match)"
  have dist: "distinct (map fst (prefixed source_name match))"
    using assms(5) by (rule distinct_prefixed)
  have m: "map_of ?merged = map_of current_data ++ map_of (prefixed source_name match)"
    using dist by (rule map_of_dict_update)
  have "merge_source lookup ota_data current_data (source_name, cached)
          = Inr (if match \<noteq> [] then ?merged else current_data)"
    using assms(1-4) by (simp add: merge_source_def spec_match_value_def Let_def)
  then have one: "merge_source lookup ota_data current_data (source_name, cached) = Inr ?merged"
    by (cases "match = []") (simp_all add: prefixed_def)
  have two: "\<forall>(k, x) \<in> set match. map_of ?merged (prefixed_key source_name k) = Some x"
    using assms(5) by (auto simp add: m map_of_prefixed)
  have three: "\<forall>j. j \<notin> prefixed_key source_name ` fst ` set match \<longrightarrow>
                map_of ?merged j = map_of current_data j"
    by (auto simp add: m map_add_def map_of_prefixed_other)
  have four: "\<forall>k \<in> fst ` set match.
                k \<in> fst ` set ?merged \<longleftrightarrow>
                  k \<in> fst ` set current_data
                  \<or> k \<in> prefixed_key source_name ` fst ` set match"
    by (simp add: keys_dict_update key_set_prefixed)
  from one two three four show ?thesis by blast
qed

theorem matched_fields_are_prefixed_witness:
  "truthy (dict_get (specs_source ''local'') ''lookup_field'')
   \<and> spec_match_value (specs_source ''local'') primary_d1 primary_d1 = Inr (JStr ''X1'')
   \<and> lookup_in_source two_source_cache (JStr ''specs'') (JStr ''model'') (JStr ''X1'')
       = Inr (Some [(''model'', JStr ''X1''), (''ram'', JStr ''8GB'')])
   \<and> (\<exists>merged.
         merge_source (lookup_in_source two_source_cache) primary_d1 primary_d1
           (hd two_source_cache) = Inr merged
       \<and> map_of merged ''specs_model'' = Some (JStr ''X1'')
       \<and> map_of merged ''specs_ram'' = Some (JStr ''8GB'')
       \<and> map_of merged ''id'' = Some (JStr ''d1'')
       \<and> map_of merged ''model'' = Some (JStr ''X1'')
       \<and> ''ram'' \<notin> fst ` set merged)"
proof -
  let ?match = "[(''model'', JStr ''X1''), (''ram'', JStr ''8GB'')]"
  let ?cached = "\<lparr>data = JList [JDict [(''model'', JStr ''X1''), (''ram'', JStr ''8GB'')],
                                JDict [(''model'', JStr ''X1''), (''ram'', JStr ''16GB'')]],
                  config = specs_source ''local''\<rparr>"
  have hd: "hd two_source_cache = (JStr ''specs'', ?cached)"
    by (simp add: two_source_cache_def)
  have lf: "dict_get (specs_source ''local'') ''lookup_field'' = JStr ''model''"
    by (simp add: dict_get_def specs_source_def)
  have a: "truthy (dict_get (config ?cached) ''lookup_field'')"
    by (simp add: lf)
  have b: "spec_match_value (config ?cached) primary_d1 primary_d1 = Inr (JStr ''X1'')"
    by (simp add: spec_match_value_def dict_get_def dict_get_dyn_def specs_source_def
        primary_d1_def)
  have c: "truthy (JStr ''X1'')" by simp
  have d: "lookup_in_source two_source_cache (JStr ''specs'')
             (dict_get (config ?cached) ''lookup_field'') (JStr ''X1'') = Inr (Some ?match)"
    by (simp add: two_source_cache_def lookup_in_source_def dict_get_def dict_get_dyn_def
        specs_source_def)
  have e: "distinct (map fst ?match)" by simp
  have keys: "prefixed_key (JStr ''specs'') k = ''specs_'' @ k" for k
    by (simp add: prefixed_key_def)
  from matched_fields_are_prefixed [where lookup = "lookup_in_source two_source_cache"
      and source_name = "JStr ''specs''" and current_data = primary_d1, OF a b c d e]
  obtain merged where
    m: "merge_source (lookup_in_source two_source_cache) primary_d1 primary_d1
          (JStr ''specs'', ?cached) = Inr merged"
    and p: "\<forall>(k, x) \<in> set ?match. map_of merged (prefixed_key (JStr ''specs'') k) = Some x"
    and q: "\<forall>j. j \<notin> prefixed_key (JStr ''specs'') ` fst ` set ?match \<longrightarrow>
              map_of merged j = map_of primary_d1 j"
    and r: "\<forall>k \<in> fst ` set ?match.
              k \<in> fst ` set merged \<longleftrightarrow>
                k \<in> fst ` set primary_d1 \<or> k \<in> prefixed_key (JStr ''specs'') ` fst ` set ?match"
    by blast
  have "map_of merged ''specs_model'' = Some (JStr ''X1'')"
    "map_of merged ''specs_ram'' = Some (JStr ''8GB'')"
    using p by (simp_all add: keys)
  moreover have "map_of merged ''id'' = Some (JStr ''d1'')"
    "map_of merged ''model'' = Some (JStr ''X1'')"
    using q by (simp_all add: keys primary_d1_def)
  moreover have "''ram'' \<notin> fst ` set merged"
    using r by (simp add: keys primary_d1_def)
  ultimately show ?thesis
    using a b d m by (auto simp add: hd lf)
qed

subsection \<open>The merge leaves its inputs alone\<close>

lemma merge_source_h_eq:
  "merge_source_h ota cur entry w
     = (case merge_source (lookup_in_source (sources_cache (the_reader w)))
               (cells w ota) (cells w cur) entry of
          Inl e \<Rightarrow> (Inl e, w)
        | Inr d \<Rightarrow> (Inr (), w\<lparr>cells := (cells w)(cur := d)\<rparr>))"
  by (simp add: merge_source_h_def merge_source_def update_h_def Let_def
      split: sum.split option.split)

lemma merge_source_h_step:
  assumes "merge_source_h ota cur entry w = (r, w')"
  shows "the_reader w' = the_reader w \<and> next_free w' = next_free w
       \<and> (\<forall>b. b \<noteq> cur \<longrightarrow> cells w' b = cells w b)
       \<and> (case merge_source (lookup_in_source (sources_cache (the_reader w)))
                  (cells w ota) (cells w cur) entry of
            Inl e \<Rightarrow> r = Inl e
          | Inr d \<Rightarrow> r = Inr () \<and> cells w' cur = d)"
proof (cases "merge_source (lookup_in_source (sources_cache (the_reader w)))
                  (cells w ota) (cells w cur) entry")
  case (Inl e)
  with assms have "r = Inl e" "w' = w" by (simp_all add: merge_source_h_eq)
  with Inl show ?thesis by simp
next
  case (Inr d)
  with assms have "r = Inr ()" "w' = w\<lparr>cells := (cells w)(cur := d)\<rparr>"
    by (simp_all add: merge_source_h_eq)
  with Inr show ?thesis by simp
qed

lemma merge_sources_h_loop:
  assumes "merge_sources_h ota cur entries w = (r, w')" and "ota \<noteq> cur"
  shows "the_reader w' = the_reader w \<and> next_free w' = next_free w
       \<and> (\<forall>b. b \<noteq> cur \<longrightarrow> cells w' b = cells w b)
       \<and> (case merge_sources (lookup_in_source (sources_cache (the_reader w)))
                  (cells w ota) (cells w cur) entries of
            Inl e \<Rightarrow> r = Inl e
          | Inr d \<Rightarrow> r = Inr () \<and> cells w' cur = d)"
  using assms(1)
proof (induction entries arbitrary: w)
  case Nil
  then have "r = Inr ()" "w' = w" by simp_all
  then show ?case by simp
next
  case (Cons entry entries)
  let ?lk = "lookup_in_source (sources_cache (the_reader w))"
  obtain r1 w1 where step: "merge_source_h ota cur entry w = (r1, w1)"
    by (cases "merge_source_h ota cur entry w")
  note s1 = merge_source_h_step [OF step]
  show ?case
  proof (cases "merge_source ?lk (cells w ota) (cells w cur) entry")
    case (Inl e)
    with s1 have r1: "r1 = Inl e" by simp
    with Cons.prems step have "r = Inl e" "w' = w1" by simp_all
    with s1 Inl show ?thesis by simp
  next
    case (Inr d)
    with s1 have r1: "r1 = Inr ()" and d: "cells w1 cur = d" by simp_all
    from r1 Cons.prems step have rest: "merge_sources_h ota cur entries w1 = (r, w')" by simp
    have ota: "cells w1 ota = cells w ota" using s1 assms(2) by simp
    have rd: "the_reader w1 = the_reader w" using s1 by simp
    from Cons.IH [OF rest] s1 show ?thesis by (simp add: Inr d ota rd)
  qed
qed

lemma merge_sources_into_device_h_correct:
  assumes "merge_sources_into_device_h ota w = (r, w')" and "ota < next_free w"
  shows "the_reader w' = the_reader w \<and> next_free w' = Suc (next_free w)
       \<and> (\<forall>b < next_free w. cells w' b = cells w b)
       \<and> (case merge_sources_into_device (the_reader w) (cells w ota) of
            Inl e \<Rightarrow> r = Inl e
          | Inr d \<Rightarrow> r = Inr (next_free w) \<and> cells w' (next_free w) = d)"
proof -
  define cur where "cur = next_free w"
  define w1 where "w1 = w\<lparr>cells := (cells w)(cur := cells w ota), next_free := Suc cur\<rparr>"
  have cp: "copy_h ota w = (cur, w1)" by (simp add: copy_h_def cur_def w1_def)
  have neq: "ota \<noteq> cur" using assms(2) by (simp add: cur_def)
  have w1: "the_reader w1 = the_reader w" "cells w1 ota = cells w ota"
    "cells w1 cur = cells w ota" "next_free w1 = Suc cur"
    "\<forall>b. b \<noteq> cur \<longrightarrow> cells w1 b = cells w b"
    using neq by (simp_all add: w1_def)
  let ?pure = "merge_sources_into_device (the_reader w) (cells w ota)"
  obtain r2 w2 where loop: "merge_sources_h ota cur (sources_cache (the_reader w1)) w1 = (r2, w2)"
    by (cases "merge_sources_h ota cur (sources_cache (the_reader w1)) w1")
  note l = merge_sources_h_loop [OF loop neq]
  have w': "w' = w2" and r: "r = (case r2 of Inl e \<Rightarrow> Inl e | Inr u \<Rightarrow> Inr cur)"
    using assms(1) cp loop
    by (auto simp add: merge_sources_into_device_h_def split: sum.splits)
  have a: "the_reader w' = the_reader w" "next_free w' = Suc (next_free w)"
    using l w1 by (simp_all add: w' cur_def)
  have frame: "\<forall>b < next_free w. cells w' b = cells w b"
    using l w1 by (simp add: w' cur_def)
  have res: "(case ?pure of
            Inl e \<Rightarrow> r = Inl e
          | Inr d \<Rightarrow> r = Inr (next_free w) \<and> cells w' (next_free w) = d)"
  proof -
    have "(case ?pure of
             Inl e \<Rightarrow> r2 = Inl e
           | Inr d \<Rightarrow> r2 = Inr () \<and> cells w2 cur = d)"
      using l by (simp add: w1 merge_sources_into_device_def)
    then show ?thesis
      by (cases ?pure) (simp_all add: r w' cur_def)
  qed
  from a frame res show ?thesis by simp
qed

lemma get_device_info_h_correct:
  assumes "get_device_info_h catalog id_field id_value w = (r, w')"
    and "\<forall>a. catalog id_field id_value = Inr (Some a) \<longrightarrow> a < next_free w"
  shows "the_reader w' = the_reader w \<and> next_free w \<le> next_free w'
       \<and> (\<forall>b < next_free w. cells w' b = cells w b)
       \<and> result_contents (r, w')
           = (case catalog id_field id_value of
                Inl e \<Rightarrow> Inl e
              | Inr None \<Rightarrow> Inr None
              | Inr (Some a) \<Rightarrow>
                  get_device_info
                    \<lparr>reader_get_device_info = (\<lambda>f v. Inr (Some (cells w a))),
                     reader_get_all_devices = Inr [cells w a]\<rparr>
                    (the_reader w) id_field id_value)
       \<and> (\<forall>c. device_info_sources (the_reader w) \<noteq> [] \<and> r = Inr (Some c) \<longrightarrow> c = next_free w)"
proof (cases "catalog id_field id_value")
  case (Inl e)
  with assms(1) have "r = Inl e" "w' = w" by (simp_all add: get_device_info_h_def)
  with Inl show ?thesis by (simp add: result_contents_def)
next
  case (Inr found)
  show ?thesis
  proof (cases found)
    case None
    with Inr assms(1) have "r = Inr None" "w' = w" by (simp_all add: get_device_info_h_def)
    with Inr None show ?thesis by (simp add: result_contents_def)
  next
    case (Some ota)
    with Inr assms(2) have valid: "ota < next_free w" by simp
    show ?thesis
    proof (cases "cells w ota = []")
      case True
      with Inr Some assms(1) have "r = Inr None" "w' = w" by (simp_all add: get_device_info_h_def)
      with Inr Some True show ?thesis by (simp add: result_contents_def get_device_info_def)
    next
      case False
      note nonempty = False
      show ?thesis
      proof (cases "device_info_sources (the_reader w) = []")
        case True
        with Inr Some nonempty assms(1) have "r = Inr (Some ota)" "w' = w"
          by (simp_all add: get_device_info_h_def)
        with Inr Some nonempty True show ?thesis
          by (simp add: result_contents_def get_device_info_def)
      next
        case False
        obtain r1 w1 where m: "merge_sources_into_device_h ota w = (r1, w1)"
          by (cases "merge_sources_into_device_h ota w")
        note c = merge_sources_into_device_h_correct [OF m valid]
        have w': "w' = w1" and r: "r = (case r1 of Inl e \<Rightarrow> Inl e | Inr cur \<Rightarrow> Inr (Some cur))"
          using assms(1) Inr Some False nonempty m
          by (auto simp add: get_device_info_h_def split: sum.splits)
        show ?thesis
        proof (cases "merge_sources_into_device (the_reader w) (cells w ota)")
          case (Inl e)
          with c have "r1 = Inl e" by simp
          with c Inl Inr Some False nonempty show ?thesis
            by (simp add: r w' result_contents_def get_device_info_def)
        next
          case (Inr d)
          with c have "r1 = Inr (next_free w)" "cells w1 (next_free w) = d" by simp_all
          with c Inr \<open>catalog id_field id_value = Inr found\<close> Some False nonempty show ?thesis
            by (simp add: r w' result_contents_def get_device_info_def)
        qed
      qed
    qed
  qed
qed

text \<open>
  C9. Let the catalog reader hold its records at allocated addresses, and call
  \<^verbatim>\<open>get_device_info\<close> twice with the same arguments. Then both calls give the same output; the
  reader object, with its cache, is after each call what it was before; every object that
  existed before the calls, the primary record among them, has the contents it had; and when
  sources are configured the record returned is another object than the primary record, the
  copy that the merge worked on.
\<close>

theorem query_does_not_mutate:
  assumes "\<forall>a. catalog id_field id_value = Inr (Some a) \<longrightarrow> a < next_free w"
    and "get_device_info_h catalog id_field id_value w = (r1, w1)"
    and "get_device_info_h catalog id_field id_value w1 = (r2, w2)"
  shows "result_contents (r1, w1) = result_contents (r2, w2)
       \<and> the_reader w1 = the_reader w \<and> the_reader w2 = the_reader w
       \<and> (\<forall>b < next_free w. cells w1 b = cells w b \<and> cells w2 b = cells w b)
       \<and> (\<forall>a c. catalog id_field id_value = Inr (Some a) \<and> r1 = Inr (Some c)
             \<and> device_info_sources (the_reader w) \<noteq> [] \<longrightarrow> c \<noteq> a)"
proof -
  note c1 = get_device_info_h_correct [OF assms(2) assms(1)]
  have valid1: "\<forall>a. catalog id_field id_value = Inr (Some a) \<longrightarrow> a < next_free w1"
    using assms(1) c1 by auto
  note c2 = get_device_info_h_correct [OF assms(3) valid1]
  have same_cells: "\<forall>a. catalog id_field id_value = Inr (Some a) \<longrightarrow> cells w1 a = cells w a"
    using assms(1) c1 by auto
  have rd: "the_reader w1 = the_reader w" "the_reader w2 = the_reader w"
    using c1 c2 by simp_all
  have out: "result_contents (r1, w1) = result_contents (r2, w2)"
  proof (cases "catalog id_field id_value")
    case (Inl e)
    with c1 c2 show ?thesis by simp
  next
    case (Inr found)
    show ?thesis
    proof (cases found)
      case None
      with Inr c1 c2 show ?thesis by simp
    next
      case (Some a)
      with Inr same_cells have "cells w1 a = cells w a" by simp
      with Inr Some c1 c2 rd show ?thesis by simp
    qed
  qed
  have frame: "\<forall>b < next_free w. cells w1 b = cells w b \<and> cells w2 b = cells w b"
    using c1 c2 by auto
  have fresh: "\<forall>a c. catalog id_field id_value = Inr (Some a) \<and> r1 = Inr (Some c)
             \<and> device_info_sources (the_reader w) \<noteq> [] \<longrightarrow> c \<noteq> a"
    using c1 assms(1) by auto
  from out rd frame fresh show ?thesis by simp
qed

theorem query_does_not_mutate_witness:
  "d1_catalog ''id'' ''d1'' = Inr (Some 0) \<and> 0 < next_free d1_world
   \<and> fst (get_device_info_h d1_catalog ''id'' ''d1'' d1_world) = Inr (Some 1)
   \<and> result_contents (get_device_info_h d1_catalog ''id'' ''d1'' d1_world)
       = Inr (Some [(''id'', JStr ''d1''), (''model'', JStr ''X1''),
                    (''specs_model'', JStr ''X1''), (''specs_ram'', JStr ''8GB''),
                    (''vendors_ram'', JStr ''8GB''), (''vendors_vendor'', JStr ''Acme'')])
   \<and> result_contents (get_device_info_h d1_catalog ''id'' ''d1''
         (snd (get_device_info_h d1_catalog ''id'' ''d1'' d1_world)))
       = result_contents (get_device_info_h d1_catalog ''id'' ''d1'' d1_world)
   \<and> cells (snd (get_device_info_h d1_catalog ''id'' ''d1''
         (snd (get_device_info_h d1_catalog ''id'' ''d1'' d1_world)))) 0 = primary_d1
   \<and> the_reader (snd (get_device_info_h d1_catalog ''id'' ''d1''
         (snd (get_device_info_h d1_catalog ''id'' ''d1'' d1_world)))) = two_source_reader"
proof -
  let ?first = "get_device_info_h d1_catalog ''id'' ''d1'' d1_world"
  let ?second = "get_device_info_h d1_catalog ''id'' ''d1'' (snd ?first)"
  have valid: "\<forall>a. d1_catalog ''id'' ''d1'' = Inr (Some a) \<longrightarrow> a < next_free d1_world"
    by (simp add: d1_catalog_def d1_world_def)
  have one: "?first = (fst ?first, snd ?first)" and two: "?second = (fst ?second, snd ?second)"
    by simp_all
  note q = query_does_not_mutate [OF valid one two]
  note c = get_device_info_h_correct [OF one valid]
  have merged: "merge_sources_into_device two_source_reader primary_d1
       = Inr [(''id'', JStr ''d1''), (''model'', JStr ''X1''),
              (''specs_model'', JStr ''X1''), (''specs_ram'', JStr ''8GB''),
              (''vendors_ram'', JStr ''8GB''), (''vendors_vendor'', JStr ''Acme'')]"
    by (simp add: merge_sources_into_device_def two_source_reader_def two_source_cache_def
        merge_source_def lookup_in_source_def dict_get_def dict_get_dyn_def specs_source_def
        vendors_source_def primary_d1_def prefixed_def prefixed_key_def)
  have w: "the_reader d1_world = two_source_reader" "cells d1_world 0 = primary_d1"
    "next_free d1_world = 1"
    by (simp_all add: d1_world_def)
  have nonempty: "primary_d1 \<noteq> []" "device_info_sources two_source_reader \<noteq> []"
    by (simp_all add: primary_d1_def two_source_reader_def)
  have out: "result_contents ?first
       = Inr (Some [(''id'', JStr ''d1''), (''model'', JStr ''X1''),
                    (''specs_model'', JStr ''X1''), (''specs_ram'', JStr ''8GB''),
                    (''vendors_ram'', JStr ''8GB''), (''vendors_vendor'', JStr ''Acme'')])"
    using c nonempty by (simp add: d1_catalog_def w get_device_info_def merged)
  have found: "d1_catalog ''id'' ''d1'' = Inr (Some 0)"
    by (simp add: d1_catalog_def)
  from out obtain c where "fst ?first = Inr (Some c)"
    by (auto simp add: result_contents_def split: sum.splits option.splits)
  with c nonempty have address: "fst ?first = Inr (Some 1)"
    by (simp add: w)
  from q found out have
    "d1_catalog ''id'' ''d1'' = Inr (Some 0) \<and> 0 < next_free d1_world
     \<and> result_contents ?first
         = Inr (Some [(''id'', JStr ''d1''), (''model'', JStr ''X1''),
                      (''specs_model'', JStr ''X1''), (''specs_ram'', JStr ''8GB''),
                      (''vendors_ram'', JStr ''8GB''), (''vendors_vendor'', JStr ''Acme'')])
     \<and> result_contents ?second = result_contents ?first
     \<and> cells (snd ?second) 0 = primary_d1
     \<and> the_reader (snd ?second) = two_source_reader"
    by (simp add: w)
  with address show ?thesis by blast
qed

end
